theory Spec2Isabelle
  imports Main
begin

section \<open>JavaScript values used by the sources\<close>

text \<open>
  A value that is either \<^verbatim>\<open>undefined\<close> or a string (a project directory, an environment
  name, the answer of an input box) is a \<^typ>\<open>string option\<close>. JavaScript's truthiness
  test on such a value (\<^verbatim>\<open>if (v)\<close>, \<^verbatim>\<open>!v\<close>, \<^verbatim>\<open>v || w\<close>, \<^verbatim>\<open>v && w\<close>) fails for
  \<^verbatim>\<open>undefined\<close> and for the empty string.
\<close>

definition truthy :: "string option \<Rightarrow> bool" where
  "truthy v = (case v of None \<Rightarrow> False | Some x \<Rightarrow> x \<noteq> [])"

section \<open>installer/python-prompt.js\<close>

text \<open>
  \<^verbatim>\<open>STATUS_TRY_AGAIN = 0; STATUS_ABORT = 1; STATUS_CUSTOMEXE = 2;\<close> are instance fields,
  read through \<^verbatim>\<open>this\<close>.
\<close>

definition STATUS_TRY_AGAIN :: nat where "STATUS_TRY_AGAIN = 0"
definition STATUS_ABORT :: nat where "STATUS_ABORT = 1"
definition STATUS_CUSTOMEXE :: nat where "STATUS_CUSTOMEXE = 2"

text \<open>The object \<^verbatim>\<open>prompt\<close> returns: \<^verbatim>\<open>{ status }\<close> or \<^verbatim>\<open>{ status, pythonExecutable }\<close>.\<close>

record prompt_result =
  status :: nat
  pythonExecutable :: "string option"

text \<open>A button of the information message: \<^verbatim>\<open>{ title, isCloseAffordance }\<close>.\<close>

record message_item =
  title :: string
  isCloseAffordance :: bool

text \<open>What \<^verbatim>\<open>prompt\<close> does besides returning: the command it asks the editor to run.\<close>

datatype prompt_effect = OpenInstallPythonPage

text \<open>
  \<^verbatim>\<open>prompt()\<close>. Its two awaited answers are the inputs: \<open>selectedItem\<close> is what
  \<^verbatim>\<open>showInformationMessage\<close> resolves to (\<open>None\<close> when the message is dismissed), and
  \<open>inputBox\<close> is what \<^verbatim>\<open>showInputBox\<close> resolves to when it is shown (\<open>None\<close> when it is
  cancelled). The \<^verbatim>\<open>switch\<close> compares \<^verbatim>\<open>selectedItem ? selectedItem.title : undefined\<close>
  with the three titles in the order of the source; any other title, and
  \<^verbatim>\<open>undefined\<close>, fall through every case.
\<close>

definition prompt :: "message_item option \<Rightarrow> string option \<Rightarrow> prompt_result \<times> prompt_effect list" where
  "prompt selectedItem inputBox =
     (let result = \<lparr>status = STATUS_TRY_AGAIN, pythonExecutable = None\<rparr>;
          sel = (case selectedItem of None \<Rightarrow> None | Some item \<Rightarrow> Some (title item))
      in if sel = Some ''Install Python'' then (result, [OpenInstallPythonPage])
         else if sel = Some ''I have Python'' then
           (if truthy inputBox
            then (\<lparr>status = STATUS_CUSTOMEXE, pythonExecutable = inputBox\<rparr>, [])
            else (result, []))
         else if sel = Some ''Abort pioarduino IDE Installation'' then
           (\<lparr>status = STATUS_ABORT, pythonExecutable = None\<rparr>, [])
         else (result, []))"

section \<open>project/manager.js: the state of a \<^verbatim>\<open>ProjectManager\<close>\<close>

text \<open>An environment name, or \<^verbatim>\<open>undefined\<close>.\<close>

type_synonym env = "string option"

text \<open>
  The project pool of the manager (\<^verbatim>\<open>this._pool\<close>) comes from the package
  \<^verbatim>\<open>pioarduino-node-helpers\<close>, which is outside the repository. An observer is identified
  by its project directory and caches one selected environment, so the pool is a map
  from the directories that have an observer to that selection, and the active directory.
\<close>

record project_pool =
  observers :: "string \<rightharpoonup> env"
  activeProjectDir :: "string option"

text \<open>
  Modelled from the spec: \<^verbatim>\<open>getObserver(dir)\<close> of the pool, which is not under src/
  ("returns the existing Observer for dir or constructs one; idempotent"). A new observer
  has no selected environment.
\<close>

definition getObserver :: "string \<Rightarrow> project_pool \<Rightarrow> project_pool" where
  "getObserver dir p =
     (case observers p dir of
        None \<Rightarrow> p\<lparr>observers := (observers p)(dir \<mapsto> None)\<rparr>
      | Some e \<Rightarrow> p)"

text \<open>
  Modelled from the spec: \<^verbatim>\<open>getActiveObserver()\<close> of the pool ("returns the Observer
  matching ActiveSelection.directory, or none if no project is active"). The observer is
  handed out as its \<^verbatim>\<open>projectDir\<close>.
\<close>

definition getActiveObserver :: "project_pool \<Rightarrow> string option" where
  "getActiveObserver p = activeProjectDir p"

text \<open>
  Modelled from the spec: \<^verbatim>\<open>observer.getSelectedEnv()\<close>, the cached environment selection
  of the observer of \<open>dir\<close>.
\<close>

definition getSelectedEnv :: "project_pool \<Rightarrow> string \<Rightarrow> env" where
  "getSelectedEnv p dir = (case observers p dir of None \<Rightarrow> None | Some e \<Rightarrow> e)"

text \<open>
  Modelled from the spec: \<^verbatim>\<open>observer.switchProjectEnv(name)\<close> ("use it and record it on
  the observer").
\<close>

definition switchProjectEnv :: "string \<Rightarrow> env \<Rightarrow> project_pool \<Rightarrow> project_pool" where
  "switchProjectEnv dir name p = p\<lparr>observers := (observers p)(dir \<mapsto> name)\<rparr>"

text \<open>
  Modelled from the spec: \<^verbatim>\<open>pool.switch(dir)\<close> ("tells the underlying service to treat
  dir as foreground; does not touch auxiliary resources"). Afterwards the active
  observer is the one of \<open>dir\<close>.
\<close>

definition switch :: "string \<Rightarrow> project_pool \<Rightarrow> project_pool" where
  "switch dir p = p\<lparr>activeProjectDir := Some dir\<rparr>"

text \<open>
  The persisted project state behind \<^verbatim>\<open>projectHelpers\<close> (\<^verbatim>\<open>./helpers\<close>, not under src/).
  Modelled from the spec: "one entry of last selected environment per ProjectDirectory, and
  one last active directory for the workspace", written by
  \<^verbatim>\<open>updateProjectItemState(dir, 'selectedEnv', env)\<close> and read by
  \<^verbatim>\<open>getProjectItemState(dir, 'selectedEnv')\<close>, which gives \<^verbatim>\<open>undefined\<close> for a directory
  with no entry.
\<close>

record project_state =
  selectedEnvs :: "string \<rightharpoonup> env"
  lastProjectDir :: "string option"

definition getProjectItemState :: "string \<Rightarrow> project_state \<Rightarrow> env" where
  "getProjectItemState dir ps = (case selectedEnvs ps dir of None \<Rightarrow> None | Some e \<Rightarrow> e)"

definition updateProjectItemState :: "string \<Rightarrow> env \<Rightarrow> project_state \<Rightarrow> project_state" where
  "updateProjectItemState dir v ps =
     ps\<lparr>selectedEnvs := (selectedEnvs ps)(dir \<mapsto> v), lastProjectDir := Some dir\<rparr>"

text \<open>
  The auxiliary resources of a project: \<^verbatim>\<open>new ProjectTaskManager(projectDir, observer)\<close>
  and \<^verbatim>\<open>new ProjectTestManager(projectDir)\<close>, each bound to a directory.
\<close>

datatype resource = ProjectTaskManager string | ProjectTestManager string

fun resource_dir :: "resource \<Rightarrow> string" where
  "resource_dir (ProjectTaskManager d) = d"
| "resource_dir (ProjectTestManager d) = d"

text \<open>
  The text of the status bar item \<^verbatim>\<open>_sbEnvSwitcher\<close>: the loading text, or the label that
  \<^verbatim>\<open>showSelectedEnv\<close> builds from an environment (\<open>None\<close> is shown as "Default") and the
  base name of a project directory (kept here as the directory).
\<close>

datatype sb_text = Loading | EnvLabel env string

text \<open>What the manager does to the outside, in the order it does it.\<close>

datatype event =
    LogNoProjectFolder
  | LogLintError
  | ShowErrorMessage
  | ShowTextDocument string
  | Disposed resource
  | PoolSwitched string
  | Created resource

record manager =
  pool :: project_pool
  taskManager :: "resource option"
  internalSubscriptions :: "resource list"
  sbEnvSwitcher_text :: sb_text
  projects_state :: project_state
  trace :: "event list"

text \<open>
  The manager as the constructor leaves it before its own first call of
  \<^verbatim>\<open>switchToProject\<close>: an empty pool, no task manager, no internal subscriptions, the
  status bar at the loading text (\<^verbatim>\<open>registerEnvSwitcher\<close>). The persisted state \<open>ps\<close>
  is what an earlier session left.
\<close>

definition new_manager :: "project_state \<Rightarrow> manager" where
  "new_manager ps =
     \<lparr>pool = \<lparr>observers = Map.empty, activeProjectDir = None\<rparr>,
      taskManager = None,
      internalSubscriptions = [],
      sbEnvSwitcher_text = Loading,
      projects_state = ps,
      trace = []\<rparr>"

text \<open>
  Modelled from the spec: \<^verbatim>\<open>disposeSubscriptions\<close> of \<^verbatim>\<open>../utils\<close> (not under src/),
  applied to \<^verbatim>\<open>this.internalSubscriptions\<close> ("dispose all current auxiliary resources in
  full"): every element is disposed and the array is left empty.
\<close>

definition disposeSubscriptions :: "manager \<Rightarrow> manager" where
  "disposeSubscriptions m =
     m\<lparr>internalSubscriptions := [],
       trace := trace m @ map Disposed (internalSubscriptions m)\<rparr>"

text \<open>\<^verbatim>\<open>showSelectedEnv()\<close>, lines 395 to 406.\<close>

definition showSelectedEnv :: "manager \<Rightarrow> manager" where
  "showSelectedEnv m =
     (case getActiveObserver (pool m) of
        None \<Rightarrow> m
      | Some d \<Rightarrow>
          let e = getSelectedEnv (pool m) d
          in m\<lparr>sbEnvSwitcher_text := EnvLabel (if truthy e then e else None) d\<rparr>)"

text \<open>\<^verbatim>\<open>saveActiveProjectState()\<close>, lines 293 to 303.\<close>

definition saveActiveProjectState :: "manager \<Rightarrow> manager" where
  "saveActiveProjectState m =
     (case getActiveObserver (pool m) of
        None \<Rightarrow> m
      | Some d \<Rightarrow>
          m\<lparr>projects_state :=
              updateProjectItemState d (getSelectedEnv (pool m) d) (projects_state m)\<rparr>)"

section \<open>project/manager.js: \<^verbatim>\<open>switchToProject\<close>\<close>

text \<open>
  The second argument of \<^verbatim>\<open>switchToProject\<close>. \<open>opt_env\<close> is \<open>None\<close> when the object has no
  key \<^verbatim>\<open>env\<close> (the test is \<^verbatim>\<open>'env' in options\<close>, so a key with the value
  \<^verbatim>\<open>undefined\<close> counts as given: \<open>Some None\<close>); \<open>opt_force\<close> is the truthiness of
  \<^verbatim>\<open>options.force\<close>.
\<close>

record switch_options =
  opt_env :: "env option"
  opt_force :: bool

text \<open>
  What \<^verbatim>\<open>await this._configProvider.lintConfig(configUri)\<close> gives: a truthy value, a falsy
  value, or an exception.
\<close>

datatype lint_result = ConfigValid | ConfigInvalid | LintThrows

text \<open>What one call reads from the editor while it runs.\<close>

record call_inputs =
  lint :: lint_result
  visibleTextEditors :: nat
  autoOpenPlatformIOIniFile :: bool

text \<open>
  \<^verbatim>\<open>switchToProject\<close> is an \<^verbatim>\<open>async\<close> function with three \<^verbatim>\<open>await\<close>s. A call that has
  reached one of them is suspended: it keeps its local variables and the place where it
  waits, and other code of the single thread runs until it is resumed.
\<close>

datatype await_point = AwaitLintConfig | AwaitSwitchProjectEnv | AwaitPoolSwitch

record suspended =
  k_projectDir :: string
  k_options :: switch_options
  k_currentProjectDir :: "string option"
  k_currentEnv :: env
  k_awaiting :: await_point

text \<open>Lines 371 and 372: the end of every call that is not cut short.\<close>

definition switch_tail :: "manager \<Rightarrow> manager" where
  "switch_tail m = saveActiveProjectState (showSelectedEnv m)"

text \<open>
  Lines 354 to 372, after \<^verbatim>\<open>await this._pool.switch(projectDir)\<close>: the new task manager
  and test manager are made and pushed on \<^verbatim>\<open>internalSubscriptions\<close>; the configuration
  file is shown when no editor is visible and the setting asks for it.
\<close>

definition switch_create :: "suspended \<Rightarrow> call_inputs \<Rightarrow> manager \<Rightarrow> manager" where
  "switch_create k inp m =
     (let dir = k_projectDir k;
          tm = ProjectTaskManager dir;
          m1 = m\<lparr>taskManager := Some tm,
                 internalSubscriptions := internalSubscriptions m @ [tm, ProjectTestManager dir],
                 trace := trace m @ [Created tm, Created (ProjectTestManager dir)]\<rparr>;
          m2 = (if visibleTextEditors inp = 0 \<and> autoOpenPlatformIOIniFile inp
                then m1\<lparr>trace := trace m1 @ [ShowTextDocument dir]\<rparr> else m1)
      in switch_tail m2)"

text \<open>The condition of lines 346 to 351.\<close>

definition switch_needed :: "switch_options \<Rightarrow> string option \<Rightarrow> env \<Rightarrow> string \<Rightarrow> env \<Rightarrow> bool" where
  "switch_needed opts currentProjectDir currentEnv dir selectedEnv =
     (opt_force opts \<or> \<not> truthy currentProjectDir \<or> currentProjectDir \<noteq> Some dir
      \<or> currentEnv \<noteq> selectedEnv)"

text \<open>
  Lines 345 to 353: when the condition holds, the internal subscriptions are disposed and
  \<^verbatim>\<open>this._pool.switch(projectDir)\<close> is called and awaited; otherwise the call goes straight
  to its end.
\<close>

definition switch_decide :: "suspended \<Rightarrow> manager \<Rightarrow> suspended option \<times> manager" where
  "switch_decide k m =
     (let dir = k_projectDir k in
      if switch_needed (k_options k) (k_currentProjectDir k) (k_currentEnv k) dir
           (getSelectedEnv (pool m) dir)
      then
        let m1 = disposeSubscriptions m;
            m2 = m1\<lparr>pool := switch dir (pool m1), trace := trace m1 @ [PoolSwitched dir]\<rparr>
        in (Some (k\<lparr>k_awaiting := AwaitPoolSwitch\<rparr>), m2)
      else (None, switch_tail m))"

text \<open>
  Lines 322 to 343, after \<^verbatim>\<open>await lintConfig\<close>: a falsy answer shows the error message and
  the configuration file and returns; an exception is caught and logged, and the call
  goes on. Then the environment is chosen: the option when the key is given, else the
  persisted one when the observer has no truthy selection; both go through
  \<^verbatim>\<open>await observer.switchProjectEnv\<close>.
\<close>

definition switch_after_lint :: "suspended \<Rightarrow> call_inputs \<Rightarrow> manager \<Rightarrow> suspended option \<times> manager" where
  "switch_after_lint k inp m =
     (let dir = k_projectDir k in
      case lint inp of
        ConfigInvalid \<Rightarrow>
          (None, m\<lparr>trace := trace m @ [ShowErrorMessage, ShowTextDocument dir]\<rparr>)
      | r \<Rightarrow>
          let m0 = (if r = LintThrows then m\<lparr>trace := trace m @ [LogLintError]\<rparr> else m) in
          (case opt_env (k_options k) of
             Some e \<Rightarrow>
               (Some (k\<lparr>k_awaiting := AwaitSwitchProjectEnv\<rparr>),
                m0\<lparr>pool := switchProjectEnv dir e (pool m0)\<rparr>)
           | None \<Rightarrow>
               if \<not> truthy (getSelectedEnv (pool m0) dir)
               then (Some (k\<lparr>k_awaiting := AwaitSwitchProjectEnv\<rparr>),
                     m0\<lparr>pool := switchProjectEnv dir
                                  (getProjectItemState dir (projects_state m0)) (pool m0)\<rparr>)
               else switch_decide k m0))"

text \<open>
  Lines 305 to 323, up to \<^verbatim>\<open>await lintConfig\<close>: a falsy directory is an error message on
  the console and nothing else; otherwise the status bar shows the loading text, the
  active directory and environment are kept in local variables, and the observer of the
  directory is fetched.
\<close>

definition switch_start :: "string option \<Rightarrow> switch_options \<Rightarrow> manager \<Rightarrow> suspended option \<times> manager" where
  "switch_start projectDir opts m =
     (case projectDir of
        None \<Rightarrow> (None, m\<lparr>trace := trace m @ [LogNoProjectFolder]\<rparr>)
      | Some dir \<Rightarrow>
          if dir = [] then (None, m\<lparr>trace := trace m @ [LogNoProjectFolder]\<rparr>)
          else
            let m1 = m\<lparr>sbEnvSwitcher_text := Loading\<rparr>;
                cur = (case getActiveObserver (pool m1) of
                         None \<Rightarrow> (None, None)
                       | Some a \<Rightarrow> (Some a, getSelectedEnv (pool m1) a));
                m2 = m1\<lparr>pool := getObserver dir (pool m1)\<rparr>
            in (Some \<lparr>k_projectDir = dir, k_options = opts,
                       k_currentProjectDir = fst cur, k_currentEnv = snd cur,
                       k_awaiting = AwaitLintConfig\<rparr>, m2))"

text \<open>A suspended call goes on from where it waits, up to its next \<^verbatim>\<open>await\<close> or its end.\<close>

definition resume :: "suspended \<Rightarrow> call_inputs \<Rightarrow> manager \<Rightarrow> suspended option \<times> manager" where
  "resume k inp m =
     (case k_awaiting k of
        AwaitLintConfig \<Rightarrow> switch_after_lint k inp m
      | AwaitSwitchProjectEnv \<Rightarrow> switch_decide k m
      | AwaitPoolSwitch \<Rightarrow> (None, switch_create k inp m))"

text \<open>Resuming a call up to \<open>n\<close> times with nothing else running in between.\<close>

fun resume_all :: "nat \<Rightarrow> call_inputs \<Rightarrow> suspended option \<times> manager \<Rightarrow> suspended option \<times> manager" where
  "resume_all 0 inp r = r"
| "resume_all (Suc n) inp (None, m) = (None, m)"
| "resume_all (Suc n) inp (Some k, m) = resume_all n inp (resume k inp m)"

text \<open>
  One call of \<^verbatim>\<open>switchToProject\<close> that runs to its end with no other code in between: a
  call passes at most three \<^verbatim>\<open>await\<close>s.
\<close>

definition switchToProject :: "string option \<Rightarrow> switch_options \<Rightarrow> call_inputs \<Rightarrow> manager \<Rightarrow> manager" where
  "switchToProject projectDir opts inp m =
     snd (resume_all 3 inp (switch_start projectDir opts m))"

section \<open>\<^verbatim>\<open>switchToProject\<close> run without interruption, piece by piece\<close>

text \<open>
  The same lines of \<^verbatim>\<open>switchToProject\<close> once more, as the state a call that is not
  interrupted goes through. That these agree with the pieces above is proved below
  (\<open>start_form\<close>, \<open>run_form\<close>, \<open>call_form\<close>).
\<close>

text \<open>Lines 312 to 317: the active environment the call keeps in \<^verbatim>\<open>currentEnv\<close>.\<close>

definition current_env :: "manager \<Rightarrow> env" where
  "current_env m =
     (case getActiveObserver (pool m) of None \<Rightarrow> None | Some a \<Rightarrow> getSelectedEnv (pool m) a)"

text \<open>The local variables of a call for \<open>dir\<close> issued in state \<open>m\<close>, at its first \<^verbatim>\<open>await\<close>.\<close>

definition snapshot :: "string \<Rightarrow> switch_options \<Rightarrow> manager \<Rightarrow> suspended" where
  "snapshot dir opts m =
     \<lparr>k_projectDir = dir, k_options = opts,
      k_currentProjectDir = getActiveObserver (pool m), k_currentEnv = current_env m,
      k_awaiting = AwaitLintConfig\<rparr>"

text \<open>Lines 310 and 318: what the call has done to the manager by then.\<close>

definition entered :: "string \<Rightarrow> manager \<Rightarrow> manager" where
  "entered dir m = m\<lparr>sbEnvSwitcher_text := Loading, pool := getObserver dir (pool m)\<rparr>"

text \<open>Lines 333 to 335: the \<^verbatim>\<open>catch\<close> block.\<close>

definition log_lint :: "call_inputs \<Rightarrow> manager \<Rightarrow> manager" where
  "log_lint inp m = (if lint inp = LintThrows then m\<lparr>trace := trace m @ [LogLintError]\<rparr> else m)"

text \<open>
  Lines 337 to 343: the environment the call settles on. The option when its key is
  given; else the selection the observer already has, when that is truthy; else the
  persisted one.
\<close>

definition target_env :: "switch_options \<Rightarrow> string \<Rightarrow> manager \<Rightarrow> env" where
  "target_env opts dir m =
     (case opt_env opts of
        Some e \<Rightarrow> e
      | None \<Rightarrow>
          if \<not> truthy (getSelectedEnv (pool m) dir)
          then getProjectItemState dir (projects_state m)
          else getSelectedEnv (pool m) dir)"

definition select_env :: "suspended \<Rightarrow> manager \<Rightarrow> manager" where
  "select_env k m =
     (let dir = k_projectDir k in
      case opt_env (k_options k) of
        Some e \<Rightarrow> m\<lparr>pool := switchProjectEnv dir e (pool m)\<rparr>
      | None \<Rightarrow>
          if \<not> truthy (getSelectedEnv (pool m) dir)
          then m\<lparr>pool := switchProjectEnv dir (getProjectItemState dir (projects_state m)) (pool m)\<rparr>
          else m)"

text \<open>Lines 345 to 372.\<close>

definition transition :: "suspended \<Rightarrow> call_inputs \<Rightarrow> manager \<Rightarrow> manager" where
  "transition k inp m =
     (let dir = k_projectDir k in
      if switch_needed (k_options k) (k_currentProjectDir k) (k_currentEnv k) dir
           (getSelectedEnv (pool m) dir)
      then
        let m1 = disposeSubscriptions m;
            m2 = m1\<lparr>pool := switch dir (pool m1), trace := trace m1 @ [PoolSwitched dir]\<rparr>
        in switch_create k inp m2
      else switch_tail m)"

text \<open>
  A call for \<open>dir\<close> issued in state \<open>m\<close> and not interrupted is a real transition, with
  its teardown and create cycle, when the directory is truthy, the configuration is not
  found invalid, and the condition of lines 346 to 351 holds for the environment the call
  settles on.
\<close>

definition real_transition :: "string \<Rightarrow> switch_options \<Rightarrow> call_inputs \<Rightarrow> manager \<Rightarrow> bool" where
  "real_transition dir opts inp m =
     (dir \<noteq> [] \<and> lint inp \<noteq> ConfigInvalid
      \<and> switch_needed opts (getActiveObserver (pool m)) (current_env m) dir
            (target_env opts dir m))"

section \<open>Calls of \<^verbatim>\<open>switchToProject\<close> one after another, and calls that overlap\<close>

text \<open>One call: the directory, the options, and what the call reads while it runs.\<close>

type_synonym call = "string option \<times> switch_options \<times> call_inputs"

text \<open>Calls that each run to their end before the next one starts.\<close>

fun run_calls :: "call list \<Rightarrow> manager \<Rightarrow> manager" where
  "run_calls [] m = m"
| "run_calls ((projectDir, opts, inp) # cs) m =
     run_calls cs (switchToProject projectDir opts inp m)"

text \<open>
  Nothing in \<^verbatim>\<open>switchToProject\<close> keeps a second call from starting while an earlier one
  waits at an \<^verbatim>\<open>await\<close>: the callers (the editor and workspace listeners, the timer, the
  environment picker) do not wait for the promise. A schedule says in which order the
  single thread runs the pieces: \<open>Start\<close> issues a call, which runs up to its first
  \<^verbatim>\<open>await\<close> and gets the next index; \<open>Resume i\<close> lets call \<open>i\<close> go on up to its next
  \<^verbatim>\<open>await\<close> or its end. Resuming a call that has ended, or that was never issued, does
  nothing.
\<close>

datatype action = Start "string option" switch_options | Resume nat call_inputs

fun run_schedule :: "action list \<Rightarrow> suspended option list \<times> manager \<Rightarrow> suspended option list \<times> manager" where
  "run_schedule [] s = s"
| "run_schedule (Start projectDir opts # as) (ks, m) =
     (let r = switch_start projectDir opts m in run_schedule as (ks @ [fst r], snd r))"
| "run_schedule (Resume i inp # as) (ks, m) =
     (if i < length ks then
        (case ks ! i of
           None \<Rightarrow> run_schedule as (ks, m)
         | Some k \<Rightarrow> (let r = resume k inp m in run_schedule as (ks[i := fst r], snd r)))
      else run_schedule as (ks, m))"

text \<open>
  The overlap of two calls: the call for \<open>dirA\<close> is issued and waits for
  \<^verbatim>\<open>lintConfig\<close>; the call for \<open>dirB\<close> is issued and runs to its end; then the call for
  \<open>dirA\<close> is resumed and runs to its end.
\<close>

definition overlapped ::
  "string option \<Rightarrow> switch_options \<Rightarrow> call_inputs \<Rightarrow> string option \<Rightarrow> switch_options \<Rightarrow> call_inputs
     \<Rightarrow> manager \<Rightarrow> manager" where
  "overlapped dirA optsA inpA dirB optsB inpB m =
     (let a = switch_start dirA optsA m;
          mB = switchToProject dirB optsB inpB (snd a)
      in snd (resume_all 3 inpA (fst a, mB)))"

text \<open>
  The auxiliary resources that are live are the elements of \<^verbatim>\<open>internalSubscriptions\<close>.
  They belong to the active project when each of them is bound to the active directory
  of the pool.
\<close>

definition live_for_active :: "manager \<Rightarrow> bool" where
  "live_for_active m =
     list_all (\<lambda>r. activeProjectDir (pool m) = Some (resource_dir r)) (internalSubscriptions m)"

text \<open>The live resources are bound to at most one directory.\<close>

definition one_live_dir :: "manager \<Rightarrow> bool" where
  "one_live_dir m = (length (remdups (map resource_dir (internalSubscriptions m))) \<le> 1)"

text \<open>
  A call between two of its pieces, together with the manager, as the proof of the
  invariant needs it: the live resources belong to the active project, and a call that
  waits for \<^verbatim>\<open>pool.switch\<close> has made its own directory the active one.
\<close>

definition stage_ok :: "suspended option \<times> manager \<Rightarrow> bool" where
  "stage_ok r = (live_for_active (snd r) \<and>
     (case fst r of None \<Rightarrow> True
      | Some k \<Rightarrow> k_awaiting k = AwaitPoolSwitch \<longrightarrow>
          activeProjectDir (pool (snd r)) = Some (k_projectDir k)))"

text \<open>
  The events of a teardown and create cycle, and the number of cycles a trace holds: each
  cycle switches the pool once.
\<close>

fun is_cycle_event :: "event \<Rightarrow> bool" where
  "is_cycle_event (Disposed r) = True"
| "is_cycle_event (PoolSwitched d) = True"
| "is_cycle_event (Created r) = True"
| "is_cycle_event e = False"

fun is_pool_switch :: "event \<Rightarrow> bool" where
  "is_pool_switch (PoolSwitched d) = True"
| "is_pool_switch e = False"

definition cycles :: "manager \<Rightarrow> nat" where
  "cycles m = length (filter is_pool_switch (trace m))"

text \<open>A session that starts with nothing persisted.\<close>

definition no_projects_state :: project_state where
  "no_projects_state = \<lparr>selectedEnvs = Map.empty, lastProjectDir = None\<rparr>"

text \<open>Options with no key at all, and inputs of a call whose configuration is valid.\<close>

definition no_options :: switch_options where
  "no_options = \<lparr>opt_env = None, opt_force = False\<rparr>"

definition valid_inputs :: call_inputs where
  "valid_inputs = \<lparr>lint = ConfigValid, visibleTextEditors = 1, autoOpenPlatformIOIniFile = False\<rparr>"

section \<open>project/manager.js: choosing the active project directory\<close>

text \<open>
  \<^verbatim>\<open>getSelectedProjectDir()\<close>, lines 271 to 291. Its three reads are the arguments:
  \<^verbatim>\<open>projectHelpers.getPIOProjectDirs()\<close>, \<^verbatim>\<open>this._pool.getActiveProjectDir()\<close> and
  \<^verbatim>\<open>projectHelpers.getLastProjectDir()\<close>. \<^verbatim>\<open>Array.prototype.find\<close> gives the first
  element that passes the test or \<^verbatim>\<open>undefined\<close>, and its result is tested for
  truthiness.
\<close>

definition getSelectedProjectDir :: "string list \<Rightarrow> string option \<Rightarrow> string option \<Rightarrow> string option" where
  "getSelectedProjectDir pioProjectDirs currentActiveDir lastActiveDir =
     (if length pioProjectDirs < 1 then None
      else if truthy currentActiveDir
              \<and> truthy (find (\<lambda>projectDir. Some projectDir = currentActiveDir) pioProjectDirs)
      then currentActiveDir
      else if truthy lastActiveDir
              \<and> truthy (find (\<lambda>projectDir. Some projectDir = lastActiveDir) pioProjectDirs)
      then lastActiveDir
      else Some (hd pioProjectDirs))"

text \<open>
  \<^verbatim>\<open>findActiveProjectDir()\<close>, lines 263 to 269. The setting
  \<^verbatim>\<open>activateProjectOnTextEditorChange\<close> and the answer of
  \<^verbatim>\<open>projectHelpers.getActiveEditorProjectDir()\<close> are arguments as well.
\<close>

definition findActiveProjectDir ::
  "bool \<Rightarrow> string option \<Rightarrow> string list \<Rightarrow> string option \<Rightarrow> string option \<Rightarrow> string option" where
  "findActiveProjectDir activateProjectOnTextEditorChange activeEditorProjectDir
       pioProjectDirs currentActiveDir lastActiveDir =
     (let projectDir = (if activateProjectOnTextEditorChange then activeEditorProjectDir else None)
      in if truthy projectDir then projectDir
         else getSelectedProjectDir pioProjectDirs currentActiveDir lastActiveDir)"

text \<open>
  The resolution order in the words of the specification (ActiveSelectionPolicy, steps 1
  to 4), to be compared with \<^const>\<open>findActiveProjectDir\<close>: the focused editor's directory
  when it is given, belongs to the candidates and the option is enabled; else the active
  directory when it belongs to the candidates; else the persisted last directory when it
  belongs to the candidates; else the first candidate, or none when there is no candidate.
\<close>

definition is_candidate :: "string list \<Rightarrow> string option \<Rightarrow> bool" where
  "is_candidate candidates d = (case d of None \<Rightarrow> False | Some x \<Rightarrow> x \<in> set candidates)"

definition resolve_spec ::
  "bool \<Rightarrow> string option \<Rightarrow> string list \<Rightarrow> string option \<Rightarrow> string option \<Rightarrow> string option" where
  "resolve_spec activateOnFocus focusedEditorDir candidates activeDir persistedLastDir =
     (if is_candidate candidates focusedEditorDir \<and> activateOnFocus then focusedEditorDir
      else if is_candidate candidates activeDir then activeDir
      else if is_candidate candidates persistedLastDir then persistedLastDir
      else (case candidates of [] \<Rightarrow> None | c # cs \<Rightarrow> Some c))"

section \<open>project/manager.js: the configuration-change timer\<close>

text \<open>
  The delay handed to \<^verbatim>\<open>setTimeout\<close> is \<^verbatim>\<open>ProjectManager.CONFIG_CHANGED_DELAY * 1000\<close>: a
  property read on the class object, times a number. The values this needs are
  \<^verbatim>\<open>undefined\<close>, the integers and \<^verbatim>\<open>NaN\<close>.
\<close>

datatype js_value = Undefined | Number int | NaN

text \<open>
  The class body declares \<^verbatim>\<open>CONFIG_CHANGED_DELAY = 3; // seconds\<close> without
  \<^verbatim>\<open>static\<close>: a field of every instance. The class declares no static member.
\<close>

definition ProjectManager_instance_fields :: "(string \<times> js_value) list" where
  "ProjectManager_instance_fields = [(''CONFIG_CHANGED_DELAY'', Number 3)]"

definition ProjectManager_static_fields :: "(string \<times> js_value) list" where
  "ProjectManager_static_fields = []"

text \<open>Reading a property: \<^verbatim>\<open>undefined\<close> when the object has none of that name.\<close>

definition get_property :: "(string \<times> js_value) list \<Rightarrow> string \<Rightarrow> js_value" where
  "get_property props name = (case map_of props name of None \<Rightarrow> Undefined | Some v \<Rightarrow> v)"

text \<open>The operator \<^verbatim>\<open>*\<close>: both sides become numbers, \<^verbatim>\<open>undefined\<close> becomes \<^verbatim>\<open>NaN\<close>.\<close>

fun to_number :: "js_value \<Rightarrow> js_value" where
  "to_number Undefined = NaN"
| "to_number (Number n) = Number n"
| "to_number NaN = NaN"

definition js_times :: "js_value \<Rightarrow> js_value \<Rightarrow> js_value" where
  "js_times a b =
     (case to_number a of
        Number x \<Rightarrow> (case to_number b of Number y \<Rightarrow> Number (x * y) | other \<Rightarrow> NaN)
      | other \<Rightarrow> NaN)"

text \<open>Line 206: \<^verbatim>\<open>ProjectManager.CONFIG_CHANGED_DELAY * 1000\<close>.\<close>

definition config_changed_delay :: js_value where
  "config_changed_delay =
     js_times (get_property ProjectManager_static_fields ''CONFIG_CHANGED_DELAY'') (Number 1000)"

text \<open>
  The same expression read through an instance (\<^verbatim>\<open>this.CONFIG_CHANGED_DELAY * 1000\<close>), which
  is where the declaration puts the field.
\<close>

definition declared_delay :: js_value where
  "declared_delay =
     js_times (get_property ProjectManager_instance_fields ''CONFIG_CHANGED_DELAY'') (Number 1000)"

text \<open>
  How many milliseconds the host waits for a delay argument is the host's business and a
  parameter \<open>host\<close> below. In Node.js, which runs the extension, a delay that is not a
  number from 1 to 2147483647 is replaced by 1.
\<close>

definition node_timer_delay :: "js_value \<Rightarrow> nat" where
  "node_timer_delay v =
     (case v of
        Number n \<Rightarrow> if 1 \<le> n \<and> n \<le> 2147483647 then nat n else 1
      | other \<Rightarrow> 1)"

text \<open>
  The timers of the host and what the manager keeps of them: the clock in milliseconds,
  the next timer handle, the timers that have not fired (handle, due time, and the
  \<^verbatim>\<open>projectDir\<close> its callback closes over), the field \<^verbatim>\<open>_configChangedTimeout\<close>, and the
  calls \<^verbatim>\<open>switchToProject(projectDir, { force: true })\<close> that fired timers have made.
\<close>

record timers =
  clock :: nat
  next_handle :: nat
  pending :: "(nat \<times> nat \<times> string) list"
  configChangedTimeout :: "nat option"
  switch_requests :: "(string \<times> switch_options) list"

definition new_timers :: timers where
  "new_timers =
     \<lparr>clock = 0, next_handle = 1, pending = [], configChangedTimeout = None,
      switch_requests = []\<rparr>"

definition setTimeout :: "(js_value \<Rightarrow> nat) \<Rightarrow> string \<Rightarrow> js_value \<Rightarrow> timers \<Rightarrow> nat \<times> timers" where
  "setTimeout host dir delay t =
     (next_handle t,
      t\<lparr>next_handle := Suc (next_handle t),
        pending := pending t @ [(next_handle t, clock t + host delay, dir)]\<rparr>)"

definition clearTimeout :: "nat \<Rightarrow> timers \<Rightarrow> timers" where
  "clearTimeout h t = t\<lparr>pending := filter (\<lambda>x. fst x \<noteq> h) (pending t)\<rparr>"

text \<open>
  \<^verbatim>\<open>onDidChangeProjectConfig(configPath)\<close>, lines 195 to 208. \<open>dirname\<close> stands for
  \<^verbatim>\<open>path.dirname\<close>. A timer handle is truthy.
\<close>

definition onDidChangeProjectConfig ::
  "(string \<Rightarrow> string) \<Rightarrow> (js_value \<Rightarrow> nat) \<Rightarrow> string \<Rightarrow> timers \<Rightarrow> timers" where
  "onDidChangeProjectConfig dirname host configPath t =
     (let projectDir = dirname configPath;
          t1 = (case configChangedTimeout t of
                  Some h \<Rightarrow> (clearTimeout h t)\<lparr>configChangedTimeout := None\<rparr>
                | None \<Rightarrow> t);
          r = setTimeout host projectDir config_changed_delay t1
      in (snd r)\<lparr>configChangedTimeout := Some (fst r)\<rparr>)"

text \<open>
  \<open>n\<close> milliseconds pass with no other event: every pending timer that is due by then
  fires, which runs its callback \<^verbatim>\<open>() => this.switchToProject(projectDir, { force: true })\<close>.
\<close>

definition elapse :: "nat \<Rightarrow> timers \<Rightarrow> timers" where
  "elapse n t =
     (let c = clock t + n;
          due = filter (\<lambda>x. fst (snd x) \<le> c) (pending t);
          rest = filter (\<lambda>x. \<not> fst (snd x) \<le> c) (pending t)
      in t\<lparr>clock := c, pending := rest,
           switch_requests := switch_requests t
             @ map (\<lambda>x. (snd (snd x), \<lparr>opt_env = None, opt_force = True\<rparr>)) due\<rparr>)"

text \<open>
  For examples: \<^verbatim>\<open>path.dirname\<close> on a path of the form \<^verbatim>\<open>dir/file\<close>, which is the
  path up to its last slash.
\<close>

definition dirname_of :: "string \<Rightarrow> string" where
  "dirname_of p = rev (tl (dropWhile (\<lambda>c. c \<noteq> CHR ''/'') (rev p)))"

datatype timer_event = ConfigChanged string | Elapse nat

fun run_events :: "(string \<Rightarrow> string) \<Rightarrow> (js_value \<Rightarrow> nat) \<Rightarrow> timer_event list \<Rightarrow> timers \<Rightarrow> timers" where
  "run_events dirname host [] t = t"
| "run_events dirname host (ConfigChanged configPath # es) t =
     run_events dirname host es (onDidChangeProjectConfig dirname host configPath t)"
| "run_events dirname host (Elapse n # es) t = run_events dirname host es (elapse n t)"

text \<open>
  A burst: change signals for the given configuration paths, each followed by a pause
  of the given length.
\<close>

fun burst :: "(string \<times> nat) list \<Rightarrow> timer_event list" where
  "burst [] = []"
| "burst ((configPath, pause) # rest) = ConfigChanged configPath # Elapse pause # burst rest"

text \<open>
  The manager tracks the only timer there is: nothing is pending, or exactly the timer
  whose handle is in \<^verbatim>\<open>_configChangedTimeout\<close>.
\<close>

definition tracked :: "timers \<Rightarrow> bool" where
  "tracked t =
     (case pending t of
        [] \<Rightarrow> True
      | [x] \<Rightarrow> configChangedTimeout t = Some (fst x)
      | x # y # zs \<Rightarrow> False)"

section \<open>Properties of the Python prompt\<close>

lemma truthy_simps [simp]:
  "truthy None = False"
  "truthy (Some x) = (x \<noteq> [])"
  by (simp_all add: truthy_def)

text \<open>
  Claim C10. \<^verbatim>\<open>prompt\<close> always returns, and its result has the try-again status 0 and no
  executable, except in two cases: the abort button gives status 1 (no executable), and
  the button "I have Python" followed by a non-empty path gives status 2 with that path
  attached. In particular "Install Python", a dismissed message (no item), and a
  cancelled input box all give status 0 with no executable.
\<close>

theorem prompt_status:
  "fst (prompt sel inp) =
     (if map_option title sel = Some ''Abort pioarduino IDE Installation''
      then \<lparr>status = 1, pythonExecutable = None\<rparr>
      else if map_option title sel = Some ''I have Python'' \<and> truthy inp
      then \<lparr>status = 2, pythonExecutable = inp\<rparr>
      else \<lparr>status = 0, pythonExecutable = None\<rparr>)
   \<and> fst (prompt (Some \<lparr>title = ''Install Python'', isCloseAffordance = c\<rparr>) inp)
       = \<lparr>status = 0, pythonExecutable = None\<rparr>
   \<and> fst (prompt None inp) = \<lparr>status = 0, pythonExecutable = None\<rparr>
   \<and> fst (prompt (Some \<lparr>title = ''I have Python'', isCloseAffordance = c\<rparr>) None)
       = \<lparr>status = 0, pythonExecutable = None\<rparr>"
  by (cases sel)
     (simp_all add: prompt_def Let_def STATUS_TRY_AGAIN_def STATUS_ABORT_def
        STATUS_CUSTOMEXE_def)

theorem prompt_status_witness:
  "fst (prompt (Some \<lparr>title = ''I have Python'', isCloseAffordance = False\<rparr>)
         (Some ''/usr/bin/python3''))
     = \<lparr>status = 2, pythonExecutable = Some ''/usr/bin/python3''\<rparr>
   \<and> fst (prompt (Some \<lparr>title = ''Try again'', isCloseAffordance = False\<rparr>) None)
     = \<lparr>status = 0, pythonExecutable = None\<rparr>
   \<and> fst (prompt (Some \<lparr>title = ''I have Python'', isCloseAffordance = False\<rparr>) (Some ''''))
     = \<lparr>status = 0, pythonExecutable = None\<rparr>"
  using prompt_status [of "Some \<lparr>title = ''I have Python'', isCloseAffordance = False\<rparr>"
      "Some ''/usr/bin/python3''" False]
    prompt_status [of "Some \<lparr>title = ''Try again'', isCloseAffordance = False\<rparr>" None False]
    prompt_status [of "Some \<lparr>title = ''I have Python'', isCloseAffordance = False\<rparr>"
      "Some ''''" False]
  by simp

section \<open>One call of \<^verbatim>\<open>switchToProject\<close>, not interrupted\<close>

lemma resume_all_3:
  "resume_all 3 inp r =
     (case r of (None, m) \<Rightarrow> (None, m)
      | (Some k, m) \<Rightarrow>
         (case resume k inp m of (None, m1) \<Rightarrow> (None, m1)
          | (Some k1, m1) \<Rightarrow>
            (case resume k1 inp m1 of (None, m2) \<Rightarrow> (None, m2)
             | (Some k2, m2) \<Rightarrow> resume k2 inp m2)))"
  by (simp add: numeral_3_eq_3 split: prod.splits option.splits)

lemma switch_create_awaiting [simp]:
  "switch_create (k\<lparr>k_awaiting := a\<rparr>) inp m = switch_create k inp m"
  by (simp add: switch_create_def)

lemma resume_decide:
  "k_awaiting k = AwaitSwitchProjectEnv \<Longrightarrow>
   resume_all 2 inp (resume k inp m) = (None, transition k inp m)"
  by (simp add: resume_def switch_decide_def transition_def Let_def numeral_2_eq_2)

lemma decide_run:
  "resume_all 2 inp (switch_decide k m) = (None, transition k inp m)"
  by (simp add: resume_def switch_decide_def transition_def Let_def numeral_2_eq_2)

lemma resume_all_Suc_Some: "resume_all (Suc n) inp (Some k, m) = resume_all n inp (resume k inp m)"
  by simp

lemma run_form:
  assumes "k_awaiting k = AwaitLintConfig" and "lint inp \<noteq> ConfigInvalid"
  shows "resume_all 3 inp (Some k, m) = (None, transition k inp (select_env k (log_lint inp m)))"
proof -
  let ?m0 = "log_lint inp m"
  have a: "resume k inp m = switch_after_lint k inp m"
    using assms(1) by (simp add: resume_def)
  have t: "\<And>a. transition (k\<lparr>k_awaiting := a\<rparr>) inp = transition k inp"
    by (rule ext) (simp add: transition_def Let_def)
  have d: "\<And>a m. switch_decide (k\<lparr>k_awaiting := a\<rparr>) m
      = (case switch_decide k m of (None, m') \<Rightarrow> (None, m')
         | (Some k', m') \<Rightarrow> (Some (k'\<lparr>k_awaiting := AwaitPoolSwitch\<rparr>), m'))"
    by (simp add: switch_decide_def Let_def)
  have "resume_all 3 inp (Some k, m) = resume_all 2 inp (switch_after_lint k inp m)"
    by (simp add: numeral_3_eq_3 numeral_2_eq_2 a)
  also have "\<dots> = (None, transition k inp (select_env k ?m0))"
  proof (cases "opt_env (k_options k)")
    case None
    show ?thesis
    proof (cases "truthy (getSelectedEnv (pool ?m0) (k_projectDir k))")
      case True
      have "switch_after_lint k inp m = switch_decide k ?m0"
        using assms(2) None True
        by (cases "lint inp") (simp_all add: switch_after_lint_def log_lint_def Let_def)
      moreover have "select_env k ?m0 = ?m0"
        using None True by (simp add: select_env_def)
      ultimately show ?thesis by (simp add: decide_run)
    next
      case False
      have "switch_after_lint k inp m
          = (Some (k\<lparr>k_awaiting := AwaitSwitchProjectEnv\<rparr>), select_env k ?m0)"
        using assms(2) None False
        by (cases "lint inp")
           (simp_all add: switch_after_lint_def log_lint_def select_env_def Let_def)
      then show ?thesis
        using resume_decide [of "k\<lparr>k_awaiting := AwaitSwitchProjectEnv\<rparr>" inp "select_env k ?m0"]
        by (simp add: numeral_2_eq_2 t resume_def d decide_run split: prod.splits option.splits)
    qed
  next
    case (Some e)
    have "switch_after_lint k inp m
        = (Some (k\<lparr>k_awaiting := AwaitSwitchProjectEnv\<rparr>), select_env k ?m0)"
      using assms(2) Some
      by (cases "lint inp")
         (simp_all add: switch_after_lint_def log_lint_def select_env_def Let_def)
    then show ?thesis
      using resume_decide [of "k\<lparr>k_awaiting := AwaitSwitchProjectEnv\<rparr>" inp "select_env k ?m0"]
      by (simp add: numeral_2_eq_2 t resume_def d decide_run split: prod.splits option.splits)
  qed
  finally show ?thesis .
qed


lemma start_form:
  "dir \<noteq> [] \<Longrightarrow> switch_start (Some dir) opts m = (Some (snapshot dir opts m), entered dir m)"
  by (simp add: switch_start_def snapshot_def entered_def current_env_def Let_def
      split: option.splits)

lemma start_falsy:
  "\<not> truthy projectDir \<Longrightarrow>
   switch_start projectDir opts m = (None, m\<lparr>trace := trace m @ [LogNoProjectFolder]\<rparr>)"
  by (cases projectDir) (simp_all add: switch_start_def)

lemma snapshot_simps [simp]:
  "k_projectDir (snapshot dir opts m) = dir"
  "k_options (snapshot dir opts m) = opts"
  "k_currentProjectDir (snapshot dir opts m) = activeProjectDir (pool m)"
  "k_currentEnv (snapshot dir opts m) = current_env m"
  "k_awaiting (snapshot dir opts m) = AwaitLintConfig"
  by (simp_all add: snapshot_def getActiveObserver_def)

lemma getSelectedEnv_getObserver [simp]:
  "getSelectedEnv (getObserver dir p) d = getSelectedEnv p d"
  by (simp add: getSelectedEnv_def getObserver_def split: option.splits)

lemma activeProjectDir_getObserver [simp]:
  "activeProjectDir (getObserver dir p) = activeProjectDir p"
  by (simp add: getObserver_def split: option.splits)

lemma entered_simps [simp]:
  "activeProjectDir (pool (entered dir m)) = activeProjectDir (pool m)"
  "getSelectedEnv (pool (entered dir m)) d = getSelectedEnv (pool m) d"
  "internalSubscriptions (entered dir m) = internalSubscriptions m"
  "taskManager (entered dir m) = taskManager m"
  "projects_state (entered dir m) = projects_state m"
  "trace (entered dir m) = trace m"
  "sbEnvSwitcher_text (entered dir m) = Loading"
  by (simp_all add: entered_def)

lemma log_lint_simps [simp]:
  "pool (log_lint inp m) = pool m"
  "internalSubscriptions (log_lint inp m) = internalSubscriptions m"
  "taskManager (log_lint inp m) = taskManager m"
  "projects_state (log_lint inp m) = projects_state m"
  "trace (log_lint inp m) = trace m @ (if lint inp = LintThrows then [LogLintError] else [])"
  by (simp_all add: log_lint_def)

lemma select_env_simps [simp]:
  "activeProjectDir (pool (select_env k m)) = activeProjectDir (pool m)"
  "internalSubscriptions (select_env k m) = internalSubscriptions m"
  "taskManager (select_env k m) = taskManager m"
  "projects_state (select_env k m) = projects_state m"
  "trace (select_env k m) = trace m"
  by (simp_all add: select_env_def switchProjectEnv_def Let_def split: option.splits)

lemma select_env_selected:
  "getSelectedEnv (pool (select_env k m)) d =
     (if d = k_projectDir k then target_env (k_options k) d m else getSelectedEnv (pool m) d)"
  by (simp add: select_env_def target_env_def switchProjectEnv_def getSelectedEnv_def Let_def
      split: option.splits)

lemma target_env_cong:
  "getSelectedEnv (pool m') dir = getSelectedEnv (pool m) dir \<Longrightarrow>
   projects_state m' = projects_state m \<Longrightarrow>
   target_env opts dir m' = target_env opts dir m"
  by (simp add: target_env_def split: option.splits)

lemma target_env_entered [simp]:
  "target_env opts dir (log_lint inp (entered dir' m)) = target_env opts dir m"
  by (rule target_env_cong) simp_all

lemma tail_simps [simp]:
  "pool (switch_tail m) = pool m"
  "internalSubscriptions (switch_tail m) = internalSubscriptions m"
  "taskManager (switch_tail m) = taskManager m"
  "trace (switch_tail m) = trace m"
  "projects_state (switch_tail m) =
     (case activeProjectDir (pool m) of
        None \<Rightarrow> projects_state m
      | Some a \<Rightarrow> updateProjectItemState a (getSelectedEnv (pool m) a) (projects_state m))"
  "sbEnvSwitcher_text (switch_tail m) =
     (case activeProjectDir (pool m) of
        None \<Rightarrow> sbEnvSwitcher_text m
      | Some a \<Rightarrow> EnvLabel (if truthy (getSelectedEnv (pool m) a)
                             then getSelectedEnv (pool m) a else None) a)"
  by (simp_all add: switch_tail_def showSelectedEnv_def saveActiveProjectState_def
      getActiveObserver_def Let_def split: option.splits)

lemma transition_needed:
  assumes "switch_needed (k_options k) (k_currentProjectDir k) (k_currentEnv k)
             (k_projectDir k) (getSelectedEnv (pool m) (k_projectDir k))"
  shows "activeProjectDir (pool (transition k inp m)) = Some (k_projectDir k)"
    and "getSelectedEnv (pool (transition k inp m)) d = getSelectedEnv (pool m) d"
    and "internalSubscriptions (transition k inp m)
           = [ProjectTaskManager (k_projectDir k), ProjectTestManager (k_projectDir k)]"
    and "taskManager (transition k inp m) = Some (ProjectTaskManager (k_projectDir k))"
    and "projects_state (transition k inp m)
           = updateProjectItemState (k_projectDir k)
               (getSelectedEnv (pool m) (k_projectDir k)) (projects_state m)"
    and "trace (transition k inp m)
           = trace m @ map Disposed (internalSubscriptions m)
               @ [PoolSwitched (k_projectDir k), Created (ProjectTaskManager (k_projectDir k)),
                  Created (ProjectTestManager (k_projectDir k))]
               @ (if visibleTextEditors inp = 0 \<and> autoOpenPlatformIOIniFile inp
                  then [ShowTextDocument (k_projectDir k)] else [])"
  using assms
  by (simp_all add: transition_def switch_create_def disposeSubscriptions_def switch_def
      getSelectedEnv_def Let_def)

lemma transition_not_needed:
  assumes "\<not> switch_needed (k_options k) (k_currentProjectDir k) (k_currentEnv k)
             (k_projectDir k) (getSelectedEnv (pool m) (k_projectDir k))"
  shows "transition k inp m = switch_tail m"
  using assms by (simp add: transition_def)

lemma call_form:
  assumes "dir \<noteq> []" and "lint inp \<noteq> ConfigInvalid"
  shows "switchToProject (Some dir) opts inp m =
           transition (snapshot dir opts m) inp
             (select_env (snapshot dir opts m) (log_lint inp (entered dir m)))"
  using assms by (simp add: switchToProject_def start_form run_form)

lemma call_invalid:
  assumes "dir \<noteq> []" and "lint inp = ConfigInvalid"
  shows "switchToProject (Some dir) opts inp m =
           (entered dir m)\<lparr>trace := trace m @ [ShowErrorMessage, ShowTextDocument dir]\<rparr>"
  using assms
  by (simp add: switchToProject_def start_form resume_all_3 resume_def switch_after_lint_def
      entered_def)

lemma call_falsy:
  "\<not> truthy projectDir \<Longrightarrow>
   switchToProject projectDir opts inp m = m\<lparr>trace := trace m @ [LogNoProjectFolder]\<rparr>"
  by (simp add: switchToProject_def start_falsy resume_all_3)


lemma selected_before_transition:
  "getSelectedEnv (pool (select_env (snapshot dir opts m) (log_lint inp (entered dir m)))) d
     = (if d = dir then target_env opts dir m else getSelectedEnv (pool m) d)"
  by (simp add: select_env_selected)

lemma needed_iff_real:
  assumes "dir \<noteq> []" and "lint inp \<noteq> ConfigInvalid"
  shows "switch_needed (k_options (snapshot dir opts m)) (k_currentProjectDir (snapshot dir opts m))
           (k_currentEnv (snapshot dir opts m)) (k_projectDir (snapshot dir opts m))
           (getSelectedEnv (pool (select_env (snapshot dir opts m) (log_lint inp (entered dir m))))
              (k_projectDir (snapshot dir opts m)))
         = real_transition dir opts inp m"
  using assms by (simp add: real_transition_def selected_before_transition getActiveObserver_def)

lemma not_needed_active:
  "\<not> switch_needed opts cur curEnv dir sel \<Longrightarrow> cur = Some dir \<and> curEnv = sel \<and> \<not> opt_force opts"
  by (auto simp: switch_needed_def)

lemma call_real:
  assumes "real_transition dir opts inp m"
  shows "activeProjectDir (pool (switchToProject (Some dir) opts inp m)) = Some dir"
    and "getSelectedEnv (pool (switchToProject (Some dir) opts inp m)) d
           = (if d = dir then target_env opts dir m else getSelectedEnv (pool m) d)"
    and "internalSubscriptions (switchToProject (Some dir) opts inp m)
           = [ProjectTaskManager dir, ProjectTestManager dir]"
    and "taskManager (switchToProject (Some dir) opts inp m) = Some (ProjectTaskManager dir)"
    and "projects_state (switchToProject (Some dir) opts inp m)
           = updateProjectItemState dir (target_env opts dir m) (projects_state m)"
    and "trace (switchToProject (Some dir) opts inp m)
           = trace m @ (if lint inp = LintThrows then [LogLintError] else [])
               @ map Disposed (internalSubscriptions m)
               @ [PoolSwitched dir, Created (ProjectTaskManager dir),
                  Created (ProjectTestManager dir)]
               @ (if visibleTextEditors inp = 0 \<and> autoOpenPlatformIOIniFile inp
                  then [ShowTextDocument dir] else [])"
proof -
  from assms have d: "dir \<noteq> []" and l: "lint inp \<noteq> ConfigInvalid"
    by (simp_all add: real_transition_def)
  let ?k = "snapshot dir opts m"
  let ?m1 = "select_env ?k (log_lint inp (entered dir m))"
  have n: "switch_needed (k_options ?k) (k_currentProjectDir ?k) (k_currentEnv ?k)
             (k_projectDir ?k) (getSelectedEnv (pool ?m1) (k_projectDir ?k))"
    using needed_iff_real [OF d l] assms by simp
  note f = call_form [OF d l]
  show "activeProjectDir (pool (switchToProject (Some dir) opts inp m)) = Some dir"
    unfolding f using transition_needed(1) [OF n] by simp
  show "getSelectedEnv (pool (switchToProject (Some dir) opts inp m)) d
           = (if d = dir then target_env opts dir m else getSelectedEnv (pool m) d)"
    unfolding f using transition_needed(2) [OF n] by (simp add: selected_before_transition)
  show "internalSubscriptions (switchToProject (Some dir) opts inp m)
           = [ProjectTaskManager dir, ProjectTestManager dir]"
    unfolding f using transition_needed(3) [OF n] by simp
  show "taskManager (switchToProject (Some dir) opts inp m) = Some (ProjectTaskManager dir)"
    unfolding f using transition_needed(4) [OF n] by simp
  show "projects_state (switchToProject (Some dir) opts inp m)
           = updateProjectItemState dir (target_env opts dir m) (projects_state m)"
    unfolding f using transition_needed(5) [OF n] by (simp add: selected_before_transition)
  show "trace (switchToProject (Some dir) opts inp m)
           = trace m @ (if lint inp = LintThrows then [LogLintError] else [])
               @ map Disposed (internalSubscriptions m)
               @ [PoolSwitched dir, Created (ProjectTaskManager dir),
                  Created (ProjectTestManager dir)]
               @ (if visibleTextEditors inp = 0 \<and> autoOpenPlatformIOIniFile inp
                  then [ShowTextDocument dir] else [])"
    unfolding f using transition_needed(6) [OF n, of inp] by simp
qed

lemma call_confirm:
  assumes "dir \<noteq> []" and "lint inp \<noteq> ConfigInvalid" and "\<not> real_transition dir opts inp m"
  shows "activeProjectDir (pool m) = Some dir"
    and "activeProjectDir (pool (switchToProject (Some dir) opts inp m)) = Some dir"
    and "getSelectedEnv (pool (switchToProject (Some dir) opts inp m)) d
           = (if d = dir then target_env opts dir m else getSelectedEnv (pool m) d)"
    and "internalSubscriptions (switchToProject (Some dir) opts inp m) = internalSubscriptions m"
    and "taskManager (switchToProject (Some dir) opts inp m) = taskManager m"
    and "projects_state (switchToProject (Some dir) opts inp m)
           = updateProjectItemState dir (target_env opts dir m) (projects_state m)"
    and "trace (switchToProject (Some dir) opts inp m)
           = trace m @ (if lint inp = LintThrows then [LogLintError] else [])"
proof -
  let ?k = "snapshot dir opts m"
  let ?m1 = "select_env ?k (log_lint inp (entered dir m))"
  have n: "\<not> switch_needed (k_options ?k) (k_currentProjectDir ?k) (k_currentEnv ?k)
             (k_projectDir ?k) (getSelectedEnv (pool ?m1) (k_projectDir ?k))"
    using needed_iff_real [OF assms(1,2)] assms(3) by simp
  have f: "switchToProject (Some dir) opts inp m = switch_tail ?m1"
    using call_form [OF assms(1,2)] transition_not_needed [OF n] by simp
  from not_needed_active [OF n] show a: "activeProjectDir (pool m) = Some dir" by simp
  show "activeProjectDir (pool (switchToProject (Some dir) opts inp m)) = Some dir"
    unfolding f using a by simp
  show "getSelectedEnv (pool (switchToProject (Some dir) opts inp m)) d
           = (if d = dir then target_env opts dir m else getSelectedEnv (pool m) d)"
    unfolding f by (simp add: selected_before_transition)
  show "internalSubscriptions (switchToProject (Some dir) opts inp m) = internalSubscriptions m"
    unfolding f by simp
  show "taskManager (switchToProject (Some dir) opts inp m) = taskManager m"
    unfolding f by simp
  show "projects_state (switchToProject (Some dir) opts inp m)
           = updateProjectItemState dir (target_env opts dir m) (projects_state m)"
    unfolding f using a by (simp add: selected_before_transition)
  show "trace (switchToProject (Some dir) opts inp m)
           = trace m @ (if lint inp = LintThrows then [LogLintError] else [])"
    unfolding f by simp
qed

section \<open>What one call leaves behind\<close>

lemma filter_cycle_Disposed [simp]:
  "filter is_cycle_event (map Disposed rs) = map Disposed rs"
  by (induction rs) simp_all

lemma filter_pool_switch_Disposed [simp]:
  "filter is_pool_switch (map Disposed rs) = []"
  by (induction rs) simp_all

lemma real_transition_D:
  "real_transition dir opts inp m \<Longrightarrow> dir \<noteq> [] \<and> lint inp \<noteq> ConfigInvalid"
  by (simp add: real_transition_def)

lemma call_cycle_events:
  "filter is_cycle_event (trace (switchToProject (Some dir) opts inp m))
     = filter is_cycle_event (trace m)
       @ (if real_transition dir opts inp m
          then map Disposed (internalSubscriptions m)
               @ [PoolSwitched dir, Created (ProjectTaskManager dir),
                  Created (ProjectTestManager dir)]
          else [])"
proof (cases "real_transition dir opts inp m")
  case True
  show ?thesis using True by (simp add: call_real(6) [OF True])
next
  case False
  show ?thesis
  proof (cases "dir = []")
    case True
    then show ?thesis using False by (simp add: call_falsy)
  next
    case d: False
    show ?thesis
    proof (cases "lint inp = ConfigInvalid")
      case True
      then show ?thesis using False d by (simp add: call_invalid)
    next
      case l: False
      show ?thesis using False by (simp add: call_confirm(7) [OF d l False])
    qed
  qed
qed

lemma call_cycles:
  "cycles (switchToProject (Some dir) opts inp m)
     = cycles m + (if real_transition dir opts inp m then 1 else 0)"
proof (cases "real_transition dir opts inp m")
  case True
  show ?thesis using True by (simp add: cycles_def call_real(6) [OF True])
next
  case False
  show ?thesis
  proof (cases "dir = []")
    case True
    then show ?thesis using False by (simp add: cycles_def call_falsy)
  next
    case d: False
    show ?thesis
    proof (cases "lint inp = ConfigInvalid")
      case True
      then show ?thesis using False d by (simp add: cycles_def call_invalid)
    next
      case l: False
      show ?thesis using False by (simp add: cycles_def call_confirm(7) [OF d l False])
    qed
  qed
qed

lemma call_subscriptions:
  "internalSubscriptions (switchToProject (Some dir) opts inp m)
     = (if real_transition dir opts inp m
        then [ProjectTaskManager dir, ProjectTestManager dir] else internalSubscriptions m)"
  "taskManager (switchToProject (Some dir) opts inp m)
     = (if real_transition dir opts inp m
        then Some (ProjectTaskManager dir) else taskManager m)"
proof -
  have "internalSubscriptions (switchToProject (Some dir) opts inp m)
     = (if real_transition dir opts inp m
        then [ProjectTaskManager dir, ProjectTestManager dir] else internalSubscriptions m)
   \<and> taskManager (switchToProject (Some dir) opts inp m)
     = (if real_transition dir opts inp m
        then Some (ProjectTaskManager dir) else taskManager m)"
  proof (cases "real_transition dir opts inp m")
    case True
    show ?thesis using True by (simp add: call_real(3,4) [OF True])
  next
    case False
    show ?thesis
    proof (cases "dir = []")
      case True
      then show ?thesis using False by (simp add: call_falsy)
    next
      case d: False
      show ?thesis
      proof (cases "lint inp = ConfigInvalid")
        case True
        then show ?thesis using False d by (simp add: call_invalid)
      next
        case l: False
        show ?thesis using False by (simp add: call_confirm(4,5) [OF d l False])
      qed
    qed
  qed
  then show "internalSubscriptions (switchToProject (Some dir) opts inp m)
     = (if real_transition dir opts inp m
        then [ProjectTaskManager dir, ProjectTestManager dir] else internalSubscriptions m)"
    and "taskManager (switchToProject (Some dir) opts inp m)
     = (if real_transition dir opts inp m
        then Some (ProjectTaskManager dir) else taskManager m)"
    by simp_all
qed

lemma call_done:
  assumes "dir \<noteq> []" and "lint inp \<noteq> ConfigInvalid"
  shows "activeProjectDir (pool (switchToProject (Some dir) opts inp m)) = Some dir"
    and "getSelectedEnv (pool (switchToProject (Some dir) opts inp m)) dir
           = target_env opts dir m"
    and "projects_state (switchToProject (Some dir) opts inp m)
           = updateProjectItemState dir (target_env opts dir m) (projects_state m)"
proof -
  have "activeProjectDir (pool (switchToProject (Some dir) opts inp m)) = Some dir
    \<and> getSelectedEnv (pool (switchToProject (Some dir) opts inp m)) dir
           = target_env opts dir m
    \<and> projects_state (switchToProject (Some dir) opts inp m)
           = updateProjectItemState dir (target_env opts dir m) (projects_state m)"
  proof (cases "real_transition dir opts inp m")
    case True
    show ?thesis by (simp add: call_real(1,2,5) [OF True])
  next
    case False
    show ?thesis by (simp add: call_confirm(2,3,6) [OF assms False])
  qed
  then show "activeProjectDir (pool (switchToProject (Some dir) opts inp m)) = Some dir"
    and "getSelectedEnv (pool (switchToProject (Some dir) opts inp m)) dir
           = target_env opts dir m"
    and "projects_state (switchToProject (Some dir) opts inp m)
           = updateProjectItemState dir (target_env opts dir m) (projects_state m)"
    by simp_all
qed

lemma call_trace:
  assumes "dir \<noteq> []" and "lint inp \<noteq> ConfigInvalid"
  shows "trace (switchToProject (Some dir) opts inp m)
     = trace m @ (if lint inp = LintThrows then [LogLintError] else [])
       @ (if real_transition dir opts inp m
          then map Disposed (internalSubscriptions m)
               @ [PoolSwitched dir, Created (ProjectTaskManager dir),
                  Created (ProjectTestManager dir)]
               @ (if visibleTextEditors inp = 0 \<and> autoOpenPlatformIOIniFile inp
                  then [ShowTextDocument dir] else [])
          else [])"
proof (cases "real_transition dir opts inp m")
  case True
  show ?thesis using True by (simp add: call_real(6) [OF True])
next
  case False
  show ?thesis using False by (simp add: call_confirm(7) [OF assms False])
qed

lemma real_transition_iff:
  assumes "dir \<noteq> []" and "lint inp \<noteq> ConfigInvalid"
  shows "real_transition dir opts inp m
       = (opt_force opts \<or> activeProjectDir (pool m) \<noteq> Some dir
            \<or> current_env m \<noteq> target_env opts dir m)"
  using assms
  by (cases "activeProjectDir (pool m)")
     (auto simp: real_transition_def switch_needed_def getActiveObserver_def)

section \<open>Calls whose configuration is found invalid, or cannot be linted\<close>

lemmas run_defs = switchToProject_def switch_start_def resume_def switch_after_lint_def
  switch_decide_def switch_create_def switch_tail_def showSelectedEnv_def
  saveActiveProjectState_def disposeSubscriptions_def getActiveObserver_def
  getObserver_def getSelectedEnv_def switchProjectEnv_def switch_def
  getProjectItemState_def updateProjectItemState_def switch_needed_def resume_all_3
  new_manager_def no_projects_state_def no_options_def valid_inputs_def Let_def

text \<open>
  Claim C3, as amended. When \<^verbatim>\<open>lintConfig\<close> answers false for a truthy directory, the call
  ends there: the active directory and every observer's selected environment are as
  before, the internal subscriptions and the task manager are untouched (nothing is
  disposed), and nothing is persisted. The state is not the one before the call: the
  status bar is left at the loading text, the pool has an observer for the directory,
  and the error message and the configuration file have been shown.
\<close>

theorem invalid_config_aborts:
  assumes "dir \<noteq> []" and "lint inp = ConfigInvalid"
  shows "switchToProject (Some dir) opts inp m =
           m\<lparr>pool := getObserver dir (pool m), sbEnvSwitcher_text := Loading,
             trace := trace m @ [ShowErrorMessage, ShowTextDocument dir]\<rparr>
         \<and> activeProjectDir (pool (switchToProject (Some dir) opts inp m))
             = activeProjectDir (pool m)
         \<and> getSelectedEnv (pool (switchToProject (Some dir) opts inp m)) d
             = getSelectedEnv (pool m) d
         \<and> internalSubscriptions (switchToProject (Some dir) opts inp m)
             = internalSubscriptions m
         \<and> taskManager (switchToProject (Some dir) opts inp m) = taskManager m
         \<and> projects_state (switchToProject (Some dir) opts inp m) = projects_state m"
  unfolding call_invalid [OF assms] by (simp add: entered_def)

theorem invalid_config_aborts_witness:
  "activeProjectDir (pool (switchToProject (Some ''/w/b'') no_options
       (valid_inputs\<lparr>lint := ConfigInvalid\<rparr>)
       (switchToProject (Some ''/w/a'') no_options valid_inputs
          (new_manager no_projects_state))))
     = Some ''/w/a''
   \<and> internalSubscriptions (switchToProject (Some ''/w/b'') no_options
       (valid_inputs\<lparr>lint := ConfigInvalid\<rparr>)
       (switchToProject (Some ''/w/a'') no_options valid_inputs
          (new_manager no_projects_state)))
     = [ProjectTaskManager ''/w/a'', ProjectTestManager ''/w/a'']"
  using invalid_config_aborts [of "''/w/b''" "valid_inputs\<lparr>lint := ConfigInvalid\<rparr>"
      no_options "switchToProject (Some ''/w/a'') no_options valid_inputs
          (new_manager no_projects_state)" "''/w/a''"]
  by (simp add: run_defs)

text \<open>
  The claim as written fails in its last part, "the system is in the same state as
  before the call": with \<^verbatim>\<open>/w/a\<close> active and shown in the status bar, a call for
  \<^verbatim>\<open>/w/b\<close> whose configuration is invalid leaves the status bar at the loading text and
  an observer for \<^verbatim>\<open>/w/b\<close> in the pool.
\<close>

theorem invalid_config_changes_state:
  "sbEnvSwitcher_text (switchToProject (Some ''/w/a'') no_options valid_inputs
       (new_manager no_projects_state)) = EnvLabel None ''/w/a''
   \<and> sbEnvSwitcher_text (switchToProject (Some ''/w/b'') no_options
       (valid_inputs\<lparr>lint := ConfigInvalid\<rparr>)
       (switchToProject (Some ''/w/a'') no_options valid_inputs
          (new_manager no_projects_state))) = Loading
   \<and> observers (pool (switchToProject (Some ''/w/a'') no_options valid_inputs
       (new_manager no_projects_state))) ''/w/b'' = None
   \<and> observers (pool (switchToProject (Some ''/w/b'') no_options
       (valid_inputs\<lparr>lint := ConfigInvalid\<rparr>)
       (switchToProject (Some ''/w/a'') no_options valid_inputs
          (new_manager no_projects_state)))) ''/w/b'' = Some None
   \<and> switchToProject (Some ''/w/b'') no_options (valid_inputs\<lparr>lint := ConfigInvalid\<rparr>)
       (switchToProject (Some ''/w/a'') no_options valid_inputs
          (new_manager no_projects_state))
     \<noteq> switchToProject (Some ''/w/a'') no_options valid_inputs
          (new_manager no_projects_state)"
  by (simp add: run_defs)

lemma select_env_trace:
  "select_env k (m\<lparr>trace := t\<rparr>) = (select_env k m)\<lparr>trace := t\<rparr>"
  by (simp add: select_env_def Let_def split: option.splits)

lemma transition_trace:
  "transition k inp (m\<lparr>trace := t\<rparr>) =
     (transition k inp m)\<lparr>trace := t @ drop (length (trace m)) (trace (transition k inp m))\<rparr>"
  by (simp add: transition_def switch_create_def switch_tail_def showSelectedEnv_def
      saveActiveProjectState_def disposeSubscriptions_def getActiveObserver_def switch_def
      Let_def split: option.splits)

lemma transition_lint [simp]:
  "transition k (inp\<lparr>lint := x\<rparr>) m = transition k inp m"
  by (simp add: transition_def switch_create_def Let_def)

lemma trace_transition_prefix:
  "take (length (trace m)) (trace (transition k inp m)) = trace m"
  by (simp add: transition_def switch_create_def switch_tail_def showSelectedEnv_def
      saveActiveProjectState_def disposeSubscriptions_def getActiveObserver_def switch_def
      Let_def split: option.splits)

text \<open>
  Claim C4, as amended. For a truthy directory, an exception of \<^verbatim>\<open>lintConfig\<close> is
  caught and logged on the console, and the call then goes on exactly as for a valid
  configuration. The trace of the call is the error logged first and then what the call
  with a valid configuration does: when the call is forced, or the directory with the
  environment the call settles on is not the active selection, every current internal
  subscription is disposed, the pool is switched and the task and test managers are
  created. Apart from the logged error the manager ends in the same state: the
  directory is active with that environment, and the selection is persisted.
\<close>

theorem lint_exception_continues:
  assumes "dir \<noteq> []"
  shows "trace (switchToProject (Some dir) opts (inp\<lparr>lint := LintThrows\<rparr>) m)
       = trace m @ [LogLintError]
         @ (if real_transition dir opts (inp\<lparr>lint := LintThrows\<rparr>) m
            then map Disposed (internalSubscriptions m)
                 @ [PoolSwitched dir, Created (ProjectTaskManager dir),
                    Created (ProjectTestManager dir)]
                 @ (if visibleTextEditors inp = 0 \<and> autoOpenPlatformIOIniFile inp
                    then [ShowTextDocument dir] else [])
            else [])
   \<and> trace (switchToProject (Some dir) opts (inp\<lparr>lint := ConfigValid\<rparr>) m)
       = trace m
         @ (if real_transition dir opts (inp\<lparr>lint := LintThrows\<rparr>) m
            then map Disposed (internalSubscriptions m)
                 @ [PoolSwitched dir, Created (ProjectTaskManager dir),
                    Created (ProjectTestManager dir)]
                 @ (if visibleTextEditors inp = 0 \<and> autoOpenPlatformIOIniFile inp
                    then [ShowTextDocument dir] else [])
            else [])
   \<and> (switchToProject (Some dir) opts (inp\<lparr>lint := LintThrows\<rparr>) m)\<lparr>trace := []\<rparr>
       = (switchToProject (Some dir) opts (inp\<lparr>lint := ConfigValid\<rparr>) m)\<lparr>trace := []\<rparr>
   \<and> real_transition dir opts (inp\<lparr>lint := LintThrows\<rparr>) m
       = (opt_force opts \<or> activeProjectDir (pool m) \<noteq> Some dir
            \<or> current_env m \<noteq> target_env opts dir m)
   \<and> activeProjectDir (pool (switchToProject (Some dir) opts (inp\<lparr>lint := LintThrows\<rparr>) m))
       = Some dir
   \<and> getSelectedEnv (pool (switchToProject (Some dir) opts (inp\<lparr>lint := LintThrows\<rparr>) m)) dir
       = target_env opts dir m
   \<and> projects_state (switchToProject (Some dir) opts (inp\<lparr>lint := LintThrows\<rparr>) m)
       = updateProjectItemState dir (target_env opts dir m) (projects_state m)
   \<and> internalSubscriptions (switchToProject (Some dir) opts (inp\<lparr>lint := LintThrows\<rparr>) m)
       = (if real_transition dir opts (inp\<lparr>lint := LintThrows\<rparr>) m
          then [ProjectTaskManager dir, ProjectTestManager dir] else internalSubscriptions m)"
proof -
  let ?T = "inp\<lparr>lint := LintThrows\<rparr>"
  let ?V = "inp\<lparr>lint := ConfigValid\<rparr>"
  have lT: "lint ?T \<noteq> ConfigInvalid" and lV: "lint ?V \<noteq> ConfigInvalid" by simp_all
  have rv: "real_transition dir opts ?V m = real_transition dir opts ?T m"
    by (simp add: real_transition_def)
  have t1: "trace (switchToProject (Some dir) opts ?T m)
       = trace m @ [LogLintError]
         @ (if real_transition dir opts ?T m
            then map Disposed (internalSubscriptions m)
                 @ [PoolSwitched dir, Created (ProjectTaskManager dir),
                    Created (ProjectTestManager dir)]
                 @ (if visibleTextEditors inp = 0 \<and> autoOpenPlatformIOIniFile inp
                    then [ShowTextDocument dir] else [])
            else [])"
    using call_trace [OF assms lT, of opts m] by simp
  have t2: "trace (switchToProject (Some dir) opts ?V m)
       = trace m
         @ (if real_transition dir opts ?T m
            then map Disposed (internalSubscriptions m)
                 @ [PoolSwitched dir, Created (ProjectTaskManager dir),
                    Created (ProjectTestManager dir)]
                 @ (if visibleTextEditors inp = 0 \<and> autoOpenPlatformIOIniFile inp
                    then [ShowTextDocument dir] else [])
            else [])"
    using call_trace [OF assms lV, of opts m] by (simp add: rv)
  let ?k = "snapshot dir opts m"
  let ?m1 = "select_env ?k (entered dir m)"
  let ?r = "transition ?k inp ?m1"
  have v: "switchToProject (Some dir) opts ?V m = ?r"
    using call_form [OF assms lV, of opts m] by (simp add: log_lint_def)
  have "switchToProject (Some dir) opts ?T m
      = transition ?k inp (?m1\<lparr>trace := trace ?m1 @ [LogLintError]\<rparr>)"
    using call_form [OF assms lT, of opts m] by (simp add: log_lint_def select_env_trace)
  then have th: "switchToProject (Some dir) opts ?T m
      = ?r\<lparr>trace := trace ?m1 @ [LogLintError] @ drop (length (trace ?m1)) (trace ?r)\<rparr>"
    by (simp add: transition_trace)
  have e: "(switchToProject (Some dir) opts ?T m)\<lparr>trace := []\<rparr>
       = (switchToProject (Some dir) opts ?V m)\<lparr>trace := []\<rparr>"
    unfolding v th by simp
  note r = real_transition_iff [OF assms lT, of opts m]
  note d = call_done [OF assms lT, of opts m]
  note s = call_subscriptions(1) [of dir opts ?T m]
  show ?thesis using t1 t2 e r d s by blast
qed

theorem lint_exception_continues_witness:
  "trace (switchToProject (Some ''/w/a'') no_options (valid_inputs\<lparr>lint := LintThrows\<rparr>)
        (new_manager no_projects_state))
   = [LogLintError, PoolSwitched ''/w/a'', Created (ProjectTaskManager ''/w/a''),
      Created (ProjectTestManager ''/w/a'')]"
proof -
  have d: "''/w/a'' \<noteq> []" by simp
  note t = lint_exception_continues [OF d, of no_options valid_inputs
      "new_manager no_projects_state"]
  from t [THEN conjunct1] show ?thesis by (simp add: run_defs)
qed

text \<open>
  The claim as written fails: a call whose linter raises does not abort as one whose
  configuration is invalid does. From a new manager it makes \<^verbatim>\<open>/w/a\<close> active and
  creates its resources, where a false answer leaves nothing active; with \<^verbatim>\<open>/w/a\<close>
  active, a call for \<^verbatim>\<open>/w/b\<close> whose linter raises disposes the resources of \<^verbatim>\<open>/w/a\<close>
  and switches.
\<close>

theorem lint_exception_not_abort:
  "activeProjectDir (pool (switchToProject (Some ''/w/a'') no_options
       (valid_inputs\<lparr>lint := LintThrows\<rparr>) (new_manager no_projects_state)))
     = Some ''/w/a''
   \<and> internalSubscriptions (switchToProject (Some ''/w/a'') no_options
       (valid_inputs\<lparr>lint := LintThrows\<rparr>) (new_manager no_projects_state))
     = [ProjectTaskManager ''/w/a'', ProjectTestManager ''/w/a'']
   \<and> activeProjectDir (pool (switchToProject (Some ''/w/a'') no_options
       (valid_inputs\<lparr>lint := ConfigInvalid\<rparr>) (new_manager no_projects_state)))
     = None
   \<and> internalSubscriptions (switchToProject (Some ''/w/a'') no_options
       (valid_inputs\<lparr>lint := ConfigInvalid\<rparr>) (new_manager no_projects_state))
     = []
   \<and> trace (switchToProject (Some ''/w/b'') no_options
       (valid_inputs\<lparr>lint := LintThrows\<rparr>)
       (switchToProject (Some ''/w/a'') no_options valid_inputs
          (new_manager no_projects_state)))
     = [PoolSwitched ''/w/a'', Created (ProjectTaskManager ''/w/a''),
        Created (ProjectTestManager ''/w/a''), LogLintError,
        Disposed (ProjectTaskManager ''/w/a''), Disposed (ProjectTestManager ''/w/a''),
        PoolSwitched ''/w/b'', Created (ProjectTaskManager ''/w/b''),
        Created (ProjectTestManager ''/w/b'')]"
  by (simp add: run_defs)

section \<open>Teardown and create cycles of calls that follow one another\<close>

lemma second_call_confirms:
  assumes "dir \<noteq> []"
    and "lint inp \<noteq> ConfigInvalid"
    and "\<not> opt_force opts'"
    and "opt_env opts' = None \<or> opt_env opts' = Some (target_env opts dir m)"
  shows "\<not> real_transition dir opts' inp' (switchToProject (Some dir) opts inp m)"
proof -
  let ?m1 = "switchToProject (Some dir) opts inp m"
  let ?e = "target_env opts dir m"
  note fin = call_done [OF assms(1,2), of opts m]
  have p: "getProjectItemState dir (projects_state ?m1) = ?e"
    by (simp add: fin(3) getProjectItemState_def updateProjectItemState_def)
  have c: "current_env ?m1 = ?e"
    by (simp add: current_env_def getActiveObserver_def fin(1,2))
  have t: "target_env opts' dir ?m1 = ?e"
    using assms(4) by (auto simp: target_env_def fin(2) p)
  show ?thesis
    using assms(1,3)
    by (simp add: real_transition_def switch_needed_def getActiveObserver_def fin(1) c t)
qed

lemma second_call_target:
  assumes "dir \<noteq> []"
    and "lint inp \<noteq> ConfigInvalid"
    and "opt_env opts' = None \<or> opt_env opts' = Some (target_env opts dir m)"
  shows "target_env opts' dir (switchToProject (Some dir) opts inp m) = target_env opts dir m"
proof -
  let ?m1 = "switchToProject (Some dir) opts inp m"
  let ?e = "target_env opts dir m"
  note fin = call_done [OF assms(1,2), of opts m]
  have p: "getProjectItemState dir (projects_state ?m1) = ?e"
    by (simp add: fin(3) getProjectItemState_def updateProjectItemState_def)
  show ?thesis using assms(3) by (auto simp: target_env_def fin(2) p)
qed

text \<open>
  Claim C5, as amended. Two calls for the same directory, the second started after the
  first has ended, the first not cut short by an invalid configuration, the second with
  no force flag and the same environment (no \<^verbatim>\<open>env\<close> key, or the environment the first
  call settled on). The second call is never a real transition: it meets the
  short-circuit condition, disposes nothing, does not switch the pool, creates nothing,
  and leaves the internal subscriptions, the task manager and the active selection as
  they are. The first call makes one teardown and create cycle, and so do the two calls
  together, exactly when it is forced or the directory with that environment is not the
  active selection already: then every current internal subscription is disposed, the
  pool is switched to the directory, and its task manager and test manager are created
  and are the only live resources. Otherwise the two calls make no cycle at all.
\<close>

theorem repeated_switch_short_circuits:
  assumes "dir \<noteq> []"
    and "lint inp \<noteq> ConfigInvalid"
    and "\<not> opt_force opts'"
    and "opt_env opts' = None \<or> opt_env opts' = Some (target_env opts dir m)"
  shows "\<not> real_transition dir opts' inp' (switchToProject (Some dir) opts inp m)
    \<and> trace (switchToProject (Some dir) opts' inp' (switchToProject (Some dir) opts inp m))
      = trace (switchToProject (Some dir) opts inp m)
        @ (if lint inp' = ConfigInvalid then [ShowErrorMessage, ShowTextDocument dir]
           else if lint inp' = LintThrows then [LogLintError] else [])
    \<and> internalSubscriptions
        (switchToProject (Some dir) opts' inp' (switchToProject (Some dir) opts inp m))
      = internalSubscriptions (switchToProject (Some dir) opts inp m)
    \<and> taskManager
        (switchToProject (Some dir) opts' inp' (switchToProject (Some dir) opts inp m))
      = taskManager (switchToProject (Some dir) opts inp m)
    \<and> activeProjectDir (pool
        (switchToProject (Some dir) opts' inp' (switchToProject (Some dir) opts inp m)))
      = Some dir
    \<and> getSelectedEnv (pool
        (switchToProject (Some dir) opts' inp' (switchToProject (Some dir) opts inp m))) dir
      = target_env opts dir m
    \<and> real_transition dir opts inp m
      = (opt_force opts \<or> activeProjectDir (pool m) \<noteq> Some dir
           \<or> current_env m \<noteq> target_env opts dir m)
    \<and> trace (switchToProject (Some dir) opts inp m)
      = trace m @ (if lint inp = LintThrows then [LogLintError] else [])
        @ (if real_transition dir opts inp m
           then map Disposed (internalSubscriptions m)
                @ [PoolSwitched dir, Created (ProjectTaskManager dir),
                   Created (ProjectTestManager dir)]
                @ (if visibleTextEditors inp = 0 \<and> autoOpenPlatformIOIniFile inp
                   then [ShowTextDocument dir] else [])
           else [])
    \<and> internalSubscriptions (switchToProject (Some dir) opts inp m)
      = (if real_transition dir opts inp m
         then [ProjectTaskManager dir, ProjectTestManager dir] else internalSubscriptions m)
    \<and> taskManager (switchToProject (Some dir) opts inp m)
      = (if real_transition dir opts inp m
         then Some (ProjectTaskManager dir) else taskManager m)
    \<and> activeProjectDir (pool (switchToProject (Some dir) opts inp m)) = Some dir
    \<and> cycles (switchToProject (Some dir) opts' inp' (switchToProject (Some dir) opts inp m))
      = cycles m + (if real_transition dir opts inp m then 1 else 0)"
proof -
  let ?m1 = "switchToProject (Some dir) opts inp m"
  let ?m2 = "switchToProject (Some dir) opts' inp' ?m1"
  note n = second_call_confirms [OF assms, of inp']
  note fin = call_done [OF assms(1,2), of opts m]
  note tg = second_call_target [OF assms(1,2,4)]
  have c1: "trace ?m1
      = trace m @ (if lint inp = LintThrows then [LogLintError] else [])
        @ (if real_transition dir opts inp m
           then map Disposed (internalSubscriptions m)
                @ [PoolSwitched dir, Created (ProjectTaskManager dir),
                   Created (ProjectTestManager dir)]
                @ (if visibleTextEditors inp = 0 \<and> autoOpenPlatformIOIniFile inp
                   then [ShowTextDocument dir] else [])
           else [])"
    by (rule call_trace [OF assms(1,2)])
  have s2: "internalSubscriptions ?m2 = internalSubscriptions ?m1"
    and t2: "taskManager ?m2 = taskManager ?m1"
    using n by (simp_all add: call_subscriptions)
  have cy: "cycles ?m2 = cycles m + (if real_transition dir opts inp m then 1 else 0)"
    using n by (simp add: call_cycles)
  have rest: "trace ?m2 = trace ?m1
        @ (if lint inp' = ConfigInvalid then [ShowErrorMessage, ShowTextDocument dir]
           else if lint inp' = LintThrows then [LogLintError] else [])
      \<and> activeProjectDir (pool ?m2) = Some dir
      \<and> getSelectedEnv (pool ?m2) dir = target_env opts dir m"
  proof (cases "lint inp' = ConfigInvalid")
    case True
    show ?thesis using True fin(1,2) by (simp add: call_invalid [OF assms(1) True])
  next
    case False
    show ?thesis
      using call_confirm(2,3,7) [OF assms(1) False n] False tg by simp
  qed
  show ?thesis
    using n rest s2 t2 cy c1 fin(1) real_transition_iff [OF assms(1,2), of opts m]
      call_subscriptions [of dir opts inp m]
    by blast
qed

theorem repeated_switch_short_circuits_witness:
  "cycles (switchToProject (Some ''/w/a'') no_options valid_inputs
       (switchToProject (Some ''/w/a'') no_options valid_inputs
          (new_manager no_projects_state))) = 1
   \<and> internalSubscriptions (switchToProject (Some ''/w/a'') no_options valid_inputs
       (switchToProject (Some ''/w/a'') no_options valid_inputs
          (new_manager no_projects_state)))
     = [ProjectTaskManager ''/w/a'', ProjectTestManager ''/w/a'']
   \<and> trace (switchToProject (Some ''/w/a'') no_options valid_inputs
       (switchToProject (Some ''/w/a'') no_options valid_inputs
          (new_manager no_projects_state)))
     = [PoolSwitched ''/w/a'', Created (ProjectTaskManager ''/w/a''),
        Created (ProjectTestManager ''/w/a'')]"
  using repeated_switch_short_circuits [where dir = "''/w/a''" and inp = valid_inputs
      and inp' = valid_inputs and opts = no_options and opts' = no_options
      and m = "new_manager no_projects_state"]
  by (simp add: run_defs real_transition_def target_env_def current_env_def cycles_def)

text \<open>
  The claim as written fails. With \<^verbatim>\<open>/w/a\<close> already the active selection, two calls
  for \<^verbatim>\<open>/w/a\<close> in a row make no teardown and create cycle, not one: the trace after them
  is the trace before them. And two calls for \<^verbatim>\<open>/w/a\<close> that overlap, the second issued
  while the first waits, make two cycles and leave two task managers and two test
  managers live.
\<close>

theorem repeated_switch_no_cycle:
  "cycles (switchToProject (Some ''/w/a'') no_options valid_inputs
       (switchToProject (Some ''/w/a'') no_options valid_inputs
          (switchToProject (Some ''/w/a'') no_options valid_inputs
             (new_manager no_projects_state))))
     = cycles (switchToProject (Some ''/w/a'') no_options valid_inputs
          (new_manager no_projects_state))
   \<and> trace (switchToProject (Some ''/w/a'') no_options valid_inputs
       (switchToProject (Some ''/w/a'') no_options valid_inputs
          (switchToProject (Some ''/w/a'') no_options valid_inputs
             (new_manager no_projects_state))))
     = trace (switchToProject (Some ''/w/a'') no_options valid_inputs
          (new_manager no_projects_state))
   \<and> cycles (snd (run_schedule
       [Start (Some ''/w/a'') no_options, Start (Some ''/w/a'') no_options,
        Resume 0 valid_inputs, Resume 0 valid_inputs,
        Resume 1 valid_inputs, Resume 1 valid_inputs,
        Resume 0 valid_inputs, Resume 1 valid_inputs]
       ([], new_manager no_projects_state))) = 2
   \<and> internalSubscriptions (snd (run_schedule
       [Start (Some ''/w/a'') no_options, Start (Some ''/w/a'') no_options,
        Resume 0 valid_inputs, Resume 0 valid_inputs,
        Resume 1 valid_inputs, Resume 1 valid_inputs,
        Resume 0 valid_inputs, Resume 1 valid_inputs]
       ([], new_manager no_projects_state)))
     = [ProjectTaskManager ''/w/a'', ProjectTestManager ''/w/a'',
        ProjectTaskManager ''/w/a'', ProjectTestManager ''/w/a'']"
  by (simp add: run_defs cycles_def)

section \<open>The selected environment and its persistence\<close>

text \<open>
  Claim C9. After a call for a directory with the option \<^verbatim>\<open>env: x\<close> that is not cut
  short by an invalid configuration, the persisted state maps the directory to \<open>x\<close>.
  A later call for the directory with no \<^verbatim>\<open>env\<close> key, made by a new manager that has
  the persisted state and no observers yet (after a restart), selects \<open>x\<close> and makes the
  directory active. In general the environment a call selects is the option when its
  key is given, else the truthy selection the observer already has, else the persisted
  one.
\<close>

theorem selected_env_round_trip:
  assumes "dir \<noteq> []" and "lint inp \<noteq> ConfigInvalid" and "lint inp' \<noteq> ConfigInvalid"
  shows "selectedEnvs (projects_state
           (switchToProject (Some dir) \<lparr>opt_env = Some (Some x), opt_force = f\<rparr> inp m)) dir
           = Some (Some x)
    \<and> getSelectedEnv (pool
           (switchToProject (Some dir) \<lparr>opt_env = None, opt_force = f'\<rparr> inp'
              (new_manager (projects_state
                 (switchToProject (Some dir) \<lparr>opt_env = Some (Some x), opt_force = f\<rparr> inp m)))))
           dir = Some x
    \<and> activeProjectDir (pool
           (switchToProject (Some dir) \<lparr>opt_env = None, opt_force = f'\<rparr> inp'
              (new_manager (projects_state
                 (switchToProject (Some dir) \<lparr>opt_env = Some (Some x), opt_force = f\<rparr> inp m)))))
           = Some dir
    \<and> getSelectedEnv (pool (switchToProject (Some dir) opts inp' m')) dir
           = (case opt_env opts of
                Some e \<Rightarrow> e
              | None \<Rightarrow>
                  if truthy (getSelectedEnv (pool m') dir) then getSelectedEnv (pool m') dir
                  else getProjectItemState dir (projects_state m'))"
proof -
  let ?o = "\<lparr>opt_env = Some (Some x), opt_force = f\<rparr>"
  let ?m1 = "switchToProject (Some dir) ?o inp m"
  have t: "target_env ?o dir m = Some x" by (simp add: target_env_def)
  have p: "projects_state ?m1 = updateProjectItemState dir (Some x) (projects_state m)"
    using call_done(3) [OF assms(1,2), of ?o m] by (simp add: t)
  then have s: "selectedEnvs (projects_state ?m1) dir = Some (Some x)"
    by (simp add: updateProjectItemState_def)
  let ?n = "new_manager (projects_state ?m1)"
  let ?o' = "\<lparr>opt_env = None, opt_force = f'\<rparr>"
  have "target_env ?o' dir ?n = Some x"
    by (simp add: target_env_def new_manager_def getSelectedEnv_def getProjectItemState_def s)
  then have r: "getSelectedEnv (pool (switchToProject (Some dir) ?o' inp' ?n)) dir = Some x"
    using call_done(2) [OF assms(1,3), of ?o' ?n] by simp
  have a: "activeProjectDir (pool (switchToProject (Some dir) ?o' inp' ?n)) = Some dir"
    by (rule call_done(1) [OF assms(1,3)])
  have g: "getSelectedEnv (pool (switchToProject (Some dir) opts inp' m')) dir
           = (case opt_env opts of
                Some e \<Rightarrow> e
              | None \<Rightarrow>
                  if truthy (getSelectedEnv (pool m') dir) then getSelectedEnv (pool m') dir
                  else getProjectItemState dir (projects_state m'))"
    using call_done(2) [OF assms(1,3), of opts m']
    by (simp add: target_env_def split: option.splits)
  show ?thesis using s r a g by simp
qed

theorem selected_env_round_trip_witness:
  "selectedEnvs (projects_state
       (switchToProject (Some ''/w/a'') \<lparr>opt_env = Some (Some ''release''), opt_force = False\<rparr>
          valid_inputs (new_manager no_projects_state))) ''/w/a''
     = Some (Some ''release'')
   \<and> getSelectedEnv (pool
       (switchToProject (Some ''/w/a'') no_options valid_inputs
          (new_manager (projects_state
             (switchToProject (Some ''/w/a'')
                \<lparr>opt_env = Some (Some ''release''), opt_force = False\<rparr>
                valid_inputs (new_manager no_projects_state)))))) ''/w/a''
     = Some ''release''"
proof -
  have l: "lint valid_inputs \<noteq> ConfigInvalid" by (simp add: valid_inputs_def)
  have d: "''/w/a'' \<noteq> []" by simp
  note t = selected_env_round_trip [OF d l l, where x = "''release''" and f = False
      and f' = False and m = "new_manager no_projects_state" and opts = no_options
      and m' = "new_manager no_projects_state"]
  from t [THEN conjunct1] t [THEN conjunct2, THEN conjunct1] show ?thesis
    by (simp add: no_options_def)
qed

section \<open>Calls that overlap\<close>

lemma overlapped_form:
  assumes "dirA \<noteq> []" and "lint inpA \<noteq> ConfigInvalid"
  shows "overlapped (Some dirA) optsA inpA dirB optsB inpB m =
           transition (snapshot dirA optsA m) inpA
             (select_env (snapshot dirA optsA m)
                (log_lint inpA (switchToProject dirB optsB inpB (entered dirA m))))"
  using assms by (simp add: overlapped_def start_form run_form Let_def)

text \<open>
  Claim C1, as amended. \<^verbatim>\<open>switchToProject\<close> has no switch token and no serialization:
  a call issued while another one waits starts at once. When the call for \<open>B\<close> is
  issued and runs to its end while the call for \<open>A\<close> waits for its validation, the call
  for \<open>A\<close>, once resumed with a configuration not found invalid, carries out its own
  transition whenever it is forced or \<open>A\<close> was not the active directory when it was
  issued: it disposes the auxiliary resources the call for \<open>B\<close> left, switches the pool
  to \<open>A\<close> and creates the resources of \<open>A\<close>. The final active directory is \<open>A\<close>: the
  call that is resumed last wins.
\<close>

theorem overlapped_call_wins:
  assumes "dirA \<noteq> []" and "lint inpA \<noteq> ConfigInvalid"
    and "opt_force optsA \<or> activeProjectDir (pool m) \<noteq> Some dirA"
  shows "activeProjectDir (pool (overlapped (Some dirA) optsA inpA dirB optsB inpB m))
           = Some dirA
    \<and> internalSubscriptions (overlapped (Some dirA) optsA inpA dirB optsB inpB m)
           = [ProjectTaskManager dirA, ProjectTestManager dirA]
    \<and> taskManager (overlapped (Some dirA) optsA inpA dirB optsB inpB m)
           = Some (ProjectTaskManager dirA)
    \<and> filter is_cycle_event (trace (overlapped (Some dirA) optsA inpA dirB optsB inpB m))
           = filter is_cycle_event (trace (switchToProject dirB optsB inpB (entered dirA m)))
             @ map Disposed
                 (internalSubscriptions (switchToProject dirB optsB inpB (entered dirA m)))
             @ [PoolSwitched dirA, Created (ProjectTaskManager dirA),
                Created (ProjectTestManager dirA)]"
proof -
  let ?k = "snapshot dirA optsA m"
  let ?mB = "switchToProject dirB optsB inpB (entered dirA m)"
  let ?m1 = "select_env ?k (log_lint inpA ?mB)"
  have n: "switch_needed (k_options ?k) (k_currentProjectDir ?k) (k_currentEnv ?k)
             (k_projectDir ?k) (getSelectedEnv (pool ?m1) (k_projectDir ?k))"
    using assms(3) by (auto simp: switch_needed_def)
  note f = overlapped_form [OF assms(1,2)]
  show ?thesis
    unfolding f
    using transition_needed(1) [OF n] transition_needed(3) [OF n] transition_needed(4) [OF n]
      transition_needed(6) [OF n, of inpA]
    by simp
qed

theorem overlapped_call_wins_witness:
  "activeProjectDir (pool (overlapped (Some ''/w/a'') no_options valid_inputs
       (Some ''/w/b'') no_options valid_inputs (new_manager no_projects_state)))
     = Some ''/w/a''
   \<and> internalSubscriptions (overlapped (Some ''/w/a'') no_options valid_inputs
       (Some ''/w/b'') no_options valid_inputs (new_manager no_projects_state))
     = [ProjectTaskManager ''/w/a'', ProjectTestManager ''/w/a'']"
proof -
  have l: "lint valid_inputs \<noteq> ConfigInvalid" by (simp add: valid_inputs_def)
  have d: "''/w/a'' \<noteq> []" by simp
  have n: "opt_force no_options
      \<or> activeProjectDir (pool (new_manager no_projects_state)) \<noteq> Some ''/w/a''"
    by (simp add: new_manager_def)
  note t = overlapped_call_wins [OF d l n, of "Some ''/w/b''" no_options valid_inputs]
  from t [THEN conjunct1] t [THEN conjunct2, THEN conjunct1] show ?thesis by simp
qed

text \<open>
  The claim as written fails. With the call for \<^verbatim>\<open>/w/b\<close> issued and completed while
  the call for \<^verbatim>\<open>/w/a\<close> waits for its validation, the resumed call for \<^verbatim>\<open>/w/a\<close>
  finds nothing stale: it disposes the resources of \<^verbatim>\<open>/w/b\<close> and switches, and the final
  active directory is not \<^verbatim>\<open>/w/b\<close>. Two calls for the same directory are not
  serialized either: the second runs to its end while the first waits, and the first
  then tears down and creates again.
\<close>

lemmas overlap_defs = overlapped_def run_defs

theorem overlapped_call_not_stale:
  "activeProjectDir (pool (overlapped (Some ''/w/a'') no_options valid_inputs
       (Some ''/w/b'') no_options valid_inputs (new_manager no_projects_state)))
     \<noteq> Some ''/w/b''
   \<and> trace (overlapped (Some ''/w/a'') no_options valid_inputs
       (Some ''/w/b'') no_options valid_inputs (new_manager no_projects_state))
     = [PoolSwitched ''/w/b'', Created (ProjectTaskManager ''/w/b''),
        Created (ProjectTestManager ''/w/b''),
        Disposed (ProjectTaskManager ''/w/b''), Disposed (ProjectTestManager ''/w/b''),
        PoolSwitched ''/w/a'', Created (ProjectTaskManager ''/w/a''),
        Created (ProjectTestManager ''/w/a'')]
   \<and> trace (overlapped (Some ''/w/a'') no_options valid_inputs
       (Some ''/w/a'') no_options valid_inputs (new_manager no_projects_state))
     = [PoolSwitched ''/w/a'', Created (ProjectTaskManager ''/w/a''),
        Created (ProjectTestManager ''/w/a''),
        Disposed (ProjectTaskManager ''/w/a''), Disposed (ProjectTestManager ''/w/a''),
        PoolSwitched ''/w/a'', Created (ProjectTaskManager ''/w/a''),
        Created (ProjectTestManager ''/w/a'')]"
  by (simp add: overlap_defs)

section \<open>The live auxiliary resources\<close>

lemma live_for_active_iff:
  "live_for_active m
     = (\<forall>r \<in> set (internalSubscriptions m). activeProjectDir (pool m) = Some (resource_dir r))"
  by (simp add: live_for_active_def list_all_iff)

lemma live_one_dir: "live_for_active m \<Longrightarrow> one_live_dir m"
proof -
  assume l: "live_for_active m"
  let ?ds = "map resource_dir (internalSubscriptions m)"
  have "\<exists>d. set ?ds \<subseteq> {d}"
  proof (cases "activeProjectDir (pool m)")
    case None
    with l have "internalSubscriptions m = []"
      by (cases "internalSubscriptions m") (simp_all add: live_for_active_def)
    then show ?thesis by simp
  next
    case (Some a)
    with l have "set ?ds \<subseteq> {a}" by (auto simp: live_for_active_iff)
    then show ?thesis ..
  qed
  then obtain d where "set ?ds \<subseteq> {d}" ..
  then have "card (set ?ds) \<le> card {d}" by (intro card_mono) simp_all
  then show ?thesis by (simp add: one_live_dir_def length_remdups_card_conv)
qed

lemma live_cong:
  "activeProjectDir (pool m') = activeProjectDir (pool m) \<Longrightarrow>
   internalSubscriptions m' = internalSubscriptions m \<Longrightarrow>
   live_for_active m' = live_for_active m"
  by (simp add: live_for_active_def)

lemma live_empty: "internalSubscriptions m = [] \<Longrightarrow> live_for_active m"
  by (simp add: live_for_active_def)

lemma start_live:
  "live_for_active m \<Longrightarrow> live_for_active (snd (switch_start projectDir opts m))"
  by (cases projectDir)
     (simp_all add: switch_start_def live_for_active_def Let_def)

lemma start_awaiting:
  "fst (switch_start projectDir opts m) = Some k \<Longrightarrow> k_awaiting k = AwaitLintConfig"
  by (cases projectDir) (auto simp: switch_start_def Let_def split: if_splits)

lemma decide_live:
  assumes "live_for_active m"
  shows "live_for_active (snd (switch_decide k m))"
    and "fst (switch_decide k m) = Some k' \<Longrightarrow>
         k_awaiting k' = AwaitPoolSwitch
         \<and> activeProjectDir (pool (snd (switch_decide k m))) = Some (k_projectDir k')"
  using assms
  by (auto simp: switch_decide_def disposeSubscriptions_def switch_def live_for_active_def
      Let_def split: if_splits)

lemma create_live:
  assumes "live_for_active m" and "activeProjectDir (pool m) = Some (k_projectDir k)"
  shows "live_for_active (switch_create k inp m)"
  using assms by (simp add: switch_create_def live_for_active_def Let_def)

lemma after_lint_live:
  assumes "live_for_active m"
  shows "live_for_active (snd (switch_after_lint k inp m))"
    and "fst (switch_after_lint k inp m) = Some k' \<Longrightarrow> k_awaiting k' = AwaitPoolSwitch \<Longrightarrow>
         activeProjectDir (pool (snd (switch_after_lint k inp m))) = Some (k_projectDir k')"
proof -
  let ?m0 = "log_lint inp m"
  have l0: "live_for_active ?m0"
    using assms by (simp add: live_for_active_def)
  have s: "\<And>e. live_for_active (?m0\<lparr>pool := switchProjectEnv (k_projectDir k) e (pool ?m0)\<rparr>)"
    using assms by (simp add: live_for_active_def switchProjectEnv_def)
  consider (inv) "lint inp = ConfigInvalid"
    | (env) "lint inp \<noteq> ConfigInvalid"
        "opt_env (k_options k) \<noteq> None \<or> \<not> truthy (getSelectedEnv (pool ?m0) (k_projectDir k))"
    | (dec) "lint inp \<noteq> ConfigInvalid" "opt_env (k_options k) = None"
        "truthy (getSelectedEnv (pool ?m0) (k_projectDir k))"
    by blast
  then have "live_for_active (snd (switch_after_lint k inp m))
    \<and> (fst (switch_after_lint k inp m) = Some k' \<longrightarrow> k_awaiting k' = AwaitPoolSwitch \<longrightarrow>
         activeProjectDir (pool (snd (switch_after_lint k inp m))) = Some (k_projectDir k'))"
  proof cases
    case inv
    then show ?thesis using assms
      by (simp add: switch_after_lint_def live_for_active_def)
  next
    case env
    then have "\<exists>e. switch_after_lint k inp m
        = (Some (k\<lparr>k_awaiting := AwaitSwitchProjectEnv\<rparr>),
           ?m0\<lparr>pool := switchProjectEnv (k_projectDir k) e (pool ?m0)\<rparr>)"
      by (cases "lint inp"; cases "opt_env (k_options k)")
         (auto simp: switch_after_lint_def log_lint_def Let_def)
    then show ?thesis using s by auto
  next
    case dec
    then have "switch_after_lint k inp m = switch_decide k ?m0"
      by (cases "lint inp") (simp_all add: switch_after_lint_def log_lint_def Let_def)
    then show ?thesis using decide_live(1) [OF l0, of k] decide_live(2) [OF l0, of k k'] by simp
  qed
  then show "live_for_active (snd (switch_after_lint k inp m))"
    and "fst (switch_after_lint k inp m) = Some k' \<Longrightarrow> k_awaiting k' = AwaitPoolSwitch \<Longrightarrow>
         activeProjectDir (pool (snd (switch_after_lint k inp m))) = Some (k_projectDir k')"
    by simp_all
qed

lemma resume_stage:
  assumes "stage_ok (Some k, m)"
  shows "stage_ok (resume k inp m)"
proof (cases "k_awaiting k")
  case AwaitLintConfig
  from assms have l: "live_for_active m" by (simp add: stage_ok_def)
  show ?thesis
    using after_lint_live [OF l, of k inp] AwaitLintConfig
    by (auto simp: stage_ok_def resume_def split: option.splits)
next
  case AwaitSwitchProjectEnv
  from assms have l: "live_for_active m" by (simp add: stage_ok_def)
  show ?thesis
    using decide_live [OF l, of k] AwaitSwitchProjectEnv
    by (auto simp: stage_ok_def resume_def split: option.splits)
next
  case AwaitPoolSwitch
  with assms have "live_for_active m" and "activeProjectDir (pool m) = Some (k_projectDir k)"
    by (simp_all add: stage_ok_def)
  from create_live [OF this] show ?thesis
    using AwaitPoolSwitch by (simp add: stage_ok_def resume_def)
qed

lemma resume_all_stage: "stage_ok r \<Longrightarrow> stage_ok (resume_all n inp r)"
proof (induction n inp r rule: resume_all.induct)
  case (1 inp r)
  then show ?case by simp
next
  case (2 n inp m)
  then show ?case by simp
next
  case (3 n inp k m)
  then show ?case by (simp add: resume_stage)
qed

lemma start_stage: "live_for_active m \<Longrightarrow> stage_ok (switch_start projectDir opts m)"
  using start_live [of m projectDir opts] start_awaiting [of projectDir opts m]
  by (auto simp: stage_ok_def split: option.splits)

lemma call_live: "live_for_active m \<Longrightarrow> live_for_active (switchToProject projectDir opts inp m)"
  using resume_all_stage [OF start_stage, of m 3 inp projectDir opts]
  by (simp add: switchToProject_def stage_ok_def)

lemma run_calls_live: "live_for_active m \<Longrightarrow> live_for_active (run_calls cs m)"
proof (induction cs arbitrary: m)
  case Nil
  then show ?case by simp
next
  case (Cons c cs)
  obtain projectDir opts inp where c: "c = (projectDir, opts, inp)" by (cases c)
  show ?case using Cons.IH [OF call_live [OF Cons.prems]] by (simp add: c)
qed

text \<open>
  Claim C2, as amended. For every sequence of calls each of which runs to its end before
  the next one starts, from a manager whose live resources belong to the active project
  (a new manager has none): after every call, and at every \<^verbatim>\<open>await\<close> inside a call,
  the auxiliary resources of at most one project directory are live, and they are those
  of the active directory. A call that is a real transition disposes all current
  internal subscriptions, then switches the pool, then creates the new task manager and
  test manager; any other call disposes and creates nothing.
\<close>

theorem sequential_calls_one_live_dir:
  assumes "live_for_active m"
  shows "live_for_active (run_calls cs m)
    \<and> one_live_dir (run_calls cs m)
    \<and> one_live_dir (snd (resume_all n inp (switch_start projectDir opts (run_calls cs m))))
    \<and> filter is_cycle_event (trace (switchToProject (Some dir) opts inp (run_calls cs m)))
        = filter is_cycle_event (trace (run_calls cs m))
          @ (if real_transition dir opts inp (run_calls cs m)
             then map Disposed (internalSubscriptions (run_calls cs m))
                  @ [PoolSwitched dir, Created (ProjectTaskManager dir),
                     Created (ProjectTestManager dir)]
             else [])"
proof -
  note l = run_calls_live [OF assms, of cs]
  have "stage_ok (resume_all n inp (switch_start projectDir opts (run_calls cs m)))"
    by (rule resume_all_stage [OF start_stage [OF l]])
  then have "one_live_dir (snd (resume_all n inp (switch_start projectDir opts (run_calls cs m))))"
    by (simp add: stage_ok_def live_one_dir)
  then show ?thesis using l live_one_dir [OF l] by (simp add: call_cycle_events)
qed

theorem sequential_calls_one_live_dir_witness:
  "one_live_dir (run_calls
       [(Some ''/w/a'', no_options, valid_inputs), (Some ''/w/b'', no_options, valid_inputs)]
       (new_manager no_projects_state))
   \<and> internalSubscriptions (run_calls
       [(Some ''/w/a'', no_options, valid_inputs), (Some ''/w/b'', no_options, valid_inputs)]
       (new_manager no_projects_state))
     = [ProjectTaskManager ''/w/b'', ProjectTestManager ''/w/b'']"
proof -
  have l: "live_for_active (new_manager no_projects_state)"
    by (simp add: live_for_active_def new_manager_def)
  note t = sequential_calls_one_live_dir [OF l,
      of "[(Some ''/w/a'', no_options, valid_inputs), (Some ''/w/b'', no_options, valid_inputs)]"]
  from t [THEN conjunct2, THEN conjunct1] show ?thesis by (simp add: run_defs)
qed

text \<open>
  The claim as written fails for calls that overlap, which nothing in the code
  prevents. The call for \<^verbatim>\<open>/w/a\<close> disposes and waits for \<^verbatim>\<open>pool.switch\<close>; the call
  for \<^verbatim>\<open>/w/b\<close> does the same; then each creates its resources. Both calls have ended,
  and the task and test managers of two directories are live together.
\<close>

theorem interleaved_calls_two_live:
  "internalSubscriptions (snd (run_schedule
       [Start (Some ''/w/a'') no_options, Start (Some ''/w/b'') no_options,
        Resume 0 valid_inputs, Resume 0 valid_inputs,
        Resume 1 valid_inputs, Resume 1 valid_inputs,
        Resume 0 valid_inputs, Resume 1 valid_inputs]
       ([], new_manager no_projects_state)))
     = [ProjectTaskManager ''/w/a'', ProjectTestManager ''/w/a'',
        ProjectTaskManager ''/w/b'', ProjectTestManager ''/w/b'']
   \<and> \<not> one_live_dir (snd (run_schedule
       [Start (Some ''/w/a'') no_options, Start (Some ''/w/b'') no_options,
        Resume 0 valid_inputs, Resume 0 valid_inputs,
        Resume 1 valid_inputs, Resume 1 valid_inputs,
        Resume 0 valid_inputs, Resume 1 valid_inputs]
       ([], new_manager no_projects_state)))
   \<and> fst (run_schedule
       [Start (Some ''/w/a'') no_options, Start (Some ''/w/b'') no_options,
        Resume 0 valid_inputs, Resume 0 valid_inputs,
        Resume 1 valid_inputs, Resume 1 valid_inputs,
        Resume 0 valid_inputs, Resume 1 valid_inputs]
       ([], new_manager no_projects_state)) = [None, None]"
  by (simp add: run_defs one_live_dir_def)

section \<open>Properties of the choice of the active project directory\<close>

lemma is_candidate_simps [simp]:
  "is_candidate cs None = False"
  "is_candidate cs (Some x) = (x \<in> set cs)"
  by (simp_all add: is_candidate_def)

lemma is_candidate_Nil [simp]: "is_candidate [] d = False"
  by (cases d) simp_all

lemma find_eq_self:
  "find (\<lambda>p. Some p = d) xs = (if is_candidate xs d then d else None)"
  by (induction xs) (auto simp: is_candidate_def split: option.splits)

lemma truthy_find_eq:
  "truthy (find (\<lambda>p. Some p = d) xs) = (truthy d \<and> is_candidate xs d)"
  by (simp add: find_eq_self)

lemma getSelectedProjectDir_eq:
  "getSelectedProjectDir cs active lastDir =
     (if cs = [] then None
      else if truthy active \<and> is_candidate cs active then active
      else if truthy lastDir \<and> is_candidate cs lastDir then lastDir
      else Some (hd cs))"
  by (simp add: getSelectedProjectDir_def truthy_find_eq)

lemma candidate_truthy:
  "[] \<notin> set cs \<Longrightarrow> is_candidate cs d \<Longrightarrow> truthy d"
  by (cases d) auto

lemma findActiveProjectDir_agrees:
  assumes "[] \<notin> set candidates"
    and "activate \<and> truthy focused \<longrightarrow> is_candidate candidates focused"
  shows "findActiveProjectDir activate focused candidates active lastDir
           = resolve_spec activate focused candidates active lastDir
         \<and> ((findActiveProjectDir activate focused candidates active lastDir = None)
              = (candidates = []))"
proof (cases "activate \<and> truthy focused")
  case True
  with assms(2) have c: "is_candidate candidates focused" by simp
  then have "candidates \<noteq> []" by (cases focused) auto
  moreover from True have "focused \<noteq> None" by (cases focused) auto
  ultimately show ?thesis using True c
    by (simp add: findActiveProjectDir_def resolve_spec_def)
next
  case False
  then have nf: "\<not> (is_candidate candidates focused \<and> activate)"
    using candidate_truthy [OF assms(1)] by blast
  have t: "\<And>d. is_candidate candidates d \<Longrightarrow> truthy d"
    using candidate_truthy [OF assms(1)] .
  have f: "findActiveProjectDir activate focused candidates active lastDir
             = getSelectedProjectDir candidates active lastDir"
    using False by (auto simp: findActiveProjectDir_def Let_def)
  show ?thesis
  proof (cases candidates)
    case Nil
    then show ?thesis unfolding f using nf
      by (simp add: getSelectedProjectDir_eq resolve_spec_def)
  next
    case (Cons c cs)
    then have ne: "candidates \<noteq> []" by simp
    have r: "resolve_spec activate focused candidates active lastDir =
        (if is_candidate candidates active then active
         else if is_candidate candidates lastDir then lastDir else Some c)"
      using nf Cons by (auto simp: resolve_spec_def)
    have g: "getSelectedProjectDir candidates active lastDir =
        (if is_candidate candidates active then active
         else if is_candidate candidates lastDir then lastDir else Some c)"
      using t Cons by (auto simp: getSelectedProjectDir_eq)
    have "getSelectedProjectDir candidates active lastDir \<noteq> None"
      unfolding g by (cases active; cases lastDir) auto
    then show ?thesis using f r g ne by simp
  qed
qed

lemma findActiveProjectDir_order:
  "findActiveProjectDir activate focused candidates active lastDir
     = (if activate \<and> truthy focused then focused
        else case candidates of
          [] \<Rightarrow> None
        | c # cs \<Rightarrow>
            if truthy active \<and> is_candidate candidates active then active
            else if truthy lastDir \<and> is_candidate candidates lastDir then lastDir
            else Some c)"
  by (cases candidates)
     (auto simp: findActiveProjectDir_def getSelectedProjectDir_eq Let_def)

lemma findActiveProjectDir_None:
  "(findActiveProjectDir activate focused candidates active lastDir = None)
     = (\<not> (activate \<and> truthy focused) \<and> candidates = [])"
  unfolding findActiveProjectDir_order
  by (cases candidates; cases focused; cases active; cases lastDir) auto

text \<open>
  Claim C6, as amended. For every candidate list, focused-editor directory, active
  directory and persisted last directory, \<^verbatim>\<open>findActiveProjectDir\<close> returns the focused
  editor's directory when the option is enabled and that directory is non-empty, with
  no test that it is a candidate; else the active directory when it is non-empty and a
  candidate; else the persisted last directory when it is non-empty and a candidate;
  else the first candidate; and none exactly when the focused directory is not used and
  there is no candidate. When no candidate is the empty path and the focused directory
  that is used is a candidate, this is the resolution order of the specification, and
  the result is none exactly when there is no candidate.
\<close>

theorem findActiveProjectDir_resolution:
  "findActiveProjectDir activate focused candidates active lastDir
     = (if activate \<and> truthy focused then focused
        else case candidates of
          [] \<Rightarrow> None
        | c # cs \<Rightarrow>
            if truthy active \<and> is_candidate candidates active then active
            else if truthy lastDir \<and> is_candidate candidates lastDir then lastDir
            else Some c)
   \<and> ((findActiveProjectDir activate focused candidates active lastDir = None)
        = (\<not> (activate \<and> truthy focused) \<and> candidates = []))
   \<and> ([] \<notin> set candidates
        \<and> (activate \<and> truthy focused \<longrightarrow> is_candidate candidates focused)
      \<longrightarrow> findActiveProjectDir activate focused candidates active lastDir
            = resolve_spec activate focused candidates active lastDir
          \<and> ((findActiveProjectDir activate focused candidates active lastDir = None)
               = (candidates = [])))"
proof -
  have agr: "[] \<notin> set candidates
        \<and> (activate \<and> truthy focused \<longrightarrow> is_candidate candidates focused)
      \<longrightarrow> findActiveProjectDir activate focused candidates active lastDir
            = resolve_spec activate focused candidates active lastDir
          \<and> ((findActiveProjectDir activate focused candidates active lastDir = None)
               = (candidates = []))"
  proof (intro impI)
    assume h: "[] \<notin> set candidates
        \<and> (activate \<and> truthy focused \<longrightarrow> is_candidate candidates focused)"
    from h have h1: "[] \<notin> set candidates" by (rule conjunct1)
    from h have h2: "activate \<and> truthy focused \<longrightarrow> is_candidate candidates focused"
      by (rule conjunct2)
    show "findActiveProjectDir activate focused candidates active lastDir
            = resolve_spec activate focused candidates active lastDir
          \<and> ((findActiveProjectDir activate focused candidates active lastDir = None)
               = (candidates = []))"
      by (rule findActiveProjectDir_agrees [OF h1 h2])
  qed
  show ?thesis
    by (intro conjI)
       (rule findActiveProjectDir_order, rule findActiveProjectDir_None, rule agr)
qed

theorem findActiveProjectDir_resolution_witness:
  "findActiveProjectDir True (Some ''/w/b'') [''/w/a'', ''/w/b''] (Some ''/w/a'') None
     = resolve_spec True (Some ''/w/b'') [''/w/a'', ''/w/b''] (Some ''/w/a'') None
   \<and> findActiveProjectDir True (Some ''/w/b'') [''/w/a'', ''/w/b''] (Some ''/w/a'') None
     = Some ''/w/b''
   \<and> findActiveProjectDir False (Some ''/w/b'') [''/w/a'', ''/w/b''] None (Some ''/w/b'')
     = Some ''/w/b''
   \<and> findActiveProjectDir True (Some ''/w/y'') [''/w/a'', ''/w/b''] (Some ''/w/a'') None
     = Some ''/w/y''"
proof -
  note a = findActiveProjectDir_resolution [of True "Some ''/w/b''" "[''/w/a'', ''/w/b'']"
      "Some ''/w/a''" None]
  note b = findActiveProjectDir_resolution [of False "Some ''/w/b''" "[''/w/a'', ''/w/b'']"
      None "Some ''/w/b''"]
  note c = findActiveProjectDir_resolution [of True "Some ''/w/y''" "[''/w/a'', ''/w/b'']"
      "Some ''/w/a''" None]
  have h: "[] \<notin> set [''/w/a'', ''/w/b'']
      \<and> (True \<and> truthy (Some ''/w/b'') \<longrightarrow> is_candidate [''/w/a'', ''/w/b''] (Some ''/w/b''))"
    by simp
  from a [THEN conjunct2, THEN conjunct2, rule_format, OF h, THEN conjunct1]
  have 1: "findActiveProjectDir True (Some ''/w/b'') [''/w/a'', ''/w/b''] (Some ''/w/a'') None
     = resolve_spec True (Some ''/w/b'') [''/w/a'', ''/w/b''] (Some ''/w/a'') None" .
  then have 2: "findActiveProjectDir True (Some ''/w/b'') [''/w/a'', ''/w/b''] (Some ''/w/a'') None
     = Some ''/w/b''"
    by (simp add: resolve_spec_def)
  from b [THEN conjunct1]
  have 3: "findActiveProjectDir False (Some ''/w/b'') [''/w/a'', ''/w/b''] None (Some ''/w/b'')
     = Some ''/w/b''" by simp
  from c [THEN conjunct1]
  have 4: "findActiveProjectDir True (Some ''/w/y'') [''/w/a'', ''/w/b''] (Some ''/w/a'') None
     = Some ''/w/y''" by simp
  show ?thesis using 1 2 3 4 by blast
qed

text \<open>
  The claim as written fails: a focused directory that is not a candidate is returned
  all the same, where the stated order gives the first candidate, and it is returned
  even when there is no candidate at all.
\<close>

theorem findActiveProjectDir_not_candidate:
  "findActiveProjectDir True (Some ''/w/z'') [''/w/a''] None None = Some ''/w/z''
   \<and> resolve_spec True (Some ''/w/z'') [''/w/a''] None None = Some ''/w/a''
   \<and> findActiveProjectDir True (Some ''/w/z'') [] None None = Some ''/w/z''"
  by (simp add: findActiveProjectDir_def resolve_spec_def)

section \<open>Properties of the configuration-change timer\<close>

text \<open>
  Claim C8. The delay of the timer is meant to be the declared 3 seconds. The expression
  of line 206 reads \<^verbatim>\<open>CONFIG_CHANGED_DELAY\<close> from the class object, where it does not
  exist, so the delay argument is \<^verbatim>\<open>undefined * 1000\<close>, which is \<^verbatim>\<open>NaN\<close>, and not the
  3000 that the declared field gives. Node.js then waits 1 millisecond: a change signal
  at time 0 sets a timer that is due at time 1.
\<close>

theorem config_changed_delay_is_NaN:
  "config_changed_delay = NaN
   \<and> declared_delay = Number 3000
   \<and> node_timer_delay config_changed_delay = 1
   \<and> pending (onDidChangeProjectConfig dirname node_timer_delay configPath new_timers)
       = [(1, 1, dirname configPath)]"
  by (simp add: config_changed_delay_def declared_delay_def get_property_def
      ProjectManager_static_fields_def ProjectManager_instance_fields_def js_times_def
      node_timer_delay_def onDidChangeProjectConfig_def setTimeout_def new_timers_def)

lemma signal_tracked:
  assumes "tracked t"
  shows "pending (onDidChangeProjectConfig dn host p t)
           = [(next_handle t, clock t + host config_changed_delay, dn p)]"
    and "configChangedTimeout (onDidChangeProjectConfig dn host p t) = Some (next_handle t)"
    and "switch_requests (onDidChangeProjectConfig dn host p t) = switch_requests t"
    and "clock (onDidChangeProjectConfig dn host p t) = clock t"
    and "tracked (onDidChangeProjectConfig dn host p t)"
  using assms
  by (auto simp: tracked_def onDidChangeProjectConfig_def setTimeout_def clearTimeout_def
      Let_def split: list.splits option.splits)

lemma elapse_early:
  assumes "pending t = [(h, due, d)]" and "clock t + g < due"
  shows "pending (elapse g t) = [(h, due, d)]"
    and "switch_requests (elapse g t) = switch_requests t"
    and "configChangedTimeout (elapse g t) = configChangedTimeout t"
  using assms by (simp_all add: elapse_def Let_def)

lemma elapse_due:
  assumes "pending t = [(h, due, d)]" and "due \<le> clock t + q"
  shows "pending (elapse q t) = []"
    and "switch_requests (elapse q t)
           = switch_requests t @ [(d, \<lparr>opt_env = None, opt_force = True\<rparr>)]"
  using assms by (simp_all add: elapse_def Let_def)

lemma elapse_tracked: "tracked t \<Longrightarrow> tracked (elapse n t)"
  by (auto simp: tracked_def elapse_def Let_def split: list.splits if_splits)

lemma run_events_tracked: "tracked t \<Longrightarrow> tracked (run_events dn host es t)"
proof (induction es arbitrary: t)
  case Nil
  then show ?case by simp
next
  case (Cons e es)
  then show ?case by (cases e) (simp_all add: signal_tracked(5) elapse_tracked)
qed

lemma signal_then_pause:
  assumes "tracked t" and "g < host config_changed_delay"
  shows "tracked (elapse g (onDidChangeProjectConfig dn host p t))"
    and "switch_requests (elapse g (onDidChangeProjectConfig dn host p t)) = switch_requests t"
proof -
  let ?s = "onDidChangeProjectConfig dn host p t"
  have p: "pending ?s = [(next_handle t, clock t + host config_changed_delay, dn p)]"
    by (rule signal_tracked(1) [OF assms(1)])
  have c: "clock ?s + g < clock t + host config_changed_delay"
    using assms(2) by (simp add: signal_tracked(4) [OF assms(1)])
  show "tracked (elapse g ?s)"
    by (rule elapse_tracked) (rule signal_tracked(5) [OF assms(1)])
  show "switch_requests (elapse g ?s) = switch_requests t"
    using elapse_early(2) [OF p c] signal_tracked(3) [OF assms(1)] by simp
qed

lemma signal_then_quiet:
  assumes "tracked t" and "host config_changed_delay \<le> q"
  shows "switch_requests (elapse q (onDidChangeProjectConfig dn host p t))
           = switch_requests t @ [(dn p, \<lparr>opt_env = None, opt_force = True\<rparr>)]"
    and "pending (elapse q (onDidChangeProjectConfig dn host p t)) = []"
proof -
  let ?s = "onDidChangeProjectConfig dn host p t"
  have p: "pending ?s = [(next_handle t, clock t + host config_changed_delay, dn p)]"
    by (rule signal_tracked(1) [OF assms(1)])
  have c: "clock t + host config_changed_delay \<le> clock ?s + q"
    using assms(2) by (simp add: signal_tracked(4) [OF assms(1)])
  show "switch_requests (elapse q ?s)
           = switch_requests t @ [(dn p, \<lparr>opt_env = None, opt_force = True\<rparr>)]"
    using elapse_due(2) [OF p c] signal_tracked(3) [OF assms(1)] by simp
  show "pending (elapse q ?s) = []"
    by (rule elapse_due(1) [OF p c])
qed

lemma burst_collapses:
  assumes "tracked t"
    and "list_all (\<lambda>x. snd x < host config_changed_delay) xs"
    and "host config_changed_delay \<le> q"
  shows "switch_requests (run_events dn host (burst (xs @ [(p, q)])) t)
           = switch_requests t @ [(dn p, \<lparr>opt_env = None, opt_force = True\<rparr>)]
         \<and> pending (run_events dn host (burst (xs @ [(p, q)])) t) = []"
  using assms(1,2)
proof (induction xs arbitrary: t)
  case Nil
  then show ?case using signal_then_quiet [where host = host, OF Nil(1) assms(3)] by simp
next
  case (Cons x xs)
  obtain p1 g1 where x: "x = (p1, g1)" by (cases x)
  from Cons.prems(2) x have g: "g1 < host config_changed_delay"
    and rest: "list_all (\<lambda>x. snd x < host config_changed_delay) xs" by simp_all
  let ?t1 = "elapse g1 (onDidChangeProjectConfig dn host p1 t)"
  have "tracked ?t1" and s: "switch_requests ?t1 = switch_requests t"
    using signal_then_pause [where host = host, OF Cons.prems(1) g] by simp_all
  from Cons.IH [OF this(1) rest] show ?case by (simp add: x s)
qed


lemma node_delay: "node_timer_delay config_changed_delay = 1"
  by (simp add: config_changed_delay_def get_property_def
      ProjectManager_static_fields_def js_times_def node_timer_delay_def)

text \<open>
  Claim C7, as amended. The manager has one timer field for all directories, so at most
  one timer is outstanding in all, and every change signal, for whatever directory,
  cancels the outstanding timer and sets a new one. A burst of change signals whose
  pauses are shorter than the delay, followed by a pause of at least the delay, makes
  exactly one call \<^verbatim>\<open>switchToProject(dir, { force: true })\<close>, for the directory of the
  last signal, fired after the quiet period; so signals for one directory \<open>A\<close> alone
  collapse into one call for \<open>A\<close>.
\<close>

theorem config_change_burst:
  assumes "tracked t"
    and "list_all (\<lambda>x. snd x < host config_changed_delay) xs"
    and "host config_changed_delay \<le> q"
  shows "switch_requests (run_events dn host (burst (xs @ [(p, q)])) t)
           = switch_requests t @ [(dn p, \<lparr>opt_env = None, opt_force = True\<rparr>)]
         \<and> pending (run_events dn host (burst (xs @ [(p, q)])) t) = []
         \<and> length (pending (run_events dn host es t)) \<le> 1
         \<and> pending (onDidChangeProjectConfig dn host p' t)
             = [(next_handle t, clock t + host config_changed_delay, dn p')]"
proof -
  have "tracked (run_events dn host es t)"
    by (rule run_events_tracked [OF assms(1)])
  then have "length (pending (run_events dn host es t)) \<le> 1"
    by (simp add: tracked_def split: list.splits)
  then show ?thesis
    using burst_collapses [where host = host, OF assms] signal_tracked(1) [OF assms(1)]
    by simp
qed

theorem config_change_burst_witness:
  "switch_requests (run_events dirname_of node_timer_delay
      (burst [(''/w/a/platformio.ini'', 0), (''/w/a/platformio.ini'', 0),
              (''/w/a/platformio.ini'', 0), (''/w/a/platformio.ini'', 0),
              (''/w/a/platformio.ini'', 1)]) new_timers)
     = [(''/w/a'', \<lparr>opt_env = None, opt_force = True\<rparr>)]"
  using config_change_burst [of new_timers node_timer_delay
      "[(''/w/a/platformio.ini'', 0), (''/w/a/platformio.ini'', 0),
        (''/w/a/platformio.ini'', 0), (''/w/a/platformio.ini'', 0)]" 1
      dirname_of "''/w/a/platformio.ini''" "[]" "''/w/a/platformio.ini''"]
  by (simp add: node_delay tracked_def new_timers_def dirname_of_def)

text \<open>
  The claim as written fails: the timer set for \<^verbatim>\<open>/w/a\<close> is cancelled by a signal for
  another directory, \<^verbatim>\<open>/w/b\<close>, and no call for \<^verbatim>\<open>/w/a\<close> is ever made.
\<close>

theorem config_change_other_directory:
  "pending (run_events dirname_of node_timer_delay
      [ConfigChanged ''/w/a/platformio.ini''] new_timers) = [(1, 1, ''/w/a'')]
   \<and> pending (run_events dirname_of node_timer_delay
      [ConfigChanged ''/w/a/platformio.ini'', ConfigChanged ''/w/b/platformio.ini'']
      new_timers) = [(2, 1, ''/w/b'')]
   \<and> switch_requests (run_events dirname_of node_timer_delay
      [ConfigChanged ''/w/a/platformio.ini'', ConfigChanged ''/w/b/platformio.ini'',
       Elapse 5000] new_timers) = [(''/w/b'', \<lparr>opt_env = None, opt_force = True\<rparr>)]"
  by (simp add: node_delay onDidChangeProjectConfig_def setTimeout_def clearTimeout_def
      elapse_def new_timers_def dirname_of_def Let_def)

end
